theory Spec2Isabelle
  imports Main "HOL-Library.Sublist" "HOL-Library.AList" "HOL-Library.Multiset"
begin

section \<open>JavaScript values\<close>

text \<open>
  Parts of a message, tool states and request bodies are untyped at run time: the code
  inspects them with \<^verbatim>\<open>typeof\<close>, \<^verbatim>\<open>Array.isArray\<close> and truthiness tests.
  They are modelled by a datatype of JavaScript values. An object is an association list
  (the first binding of a key is the one read). A string is a list of characters, which
  stand for the code units below 256. A number is an integer: the code only ever tests a
  number inside such a value for being zero.
\<close>

datatype jsval =
    JUndefined
  | JNull
  | JBool bool
  | JNum int
  | JStr string
  | JArr "jsval list"
  | JObj "(string \<times> jsval) list"

type_synonym obj = "(string \<times> jsval) list"

text \<open>\<^verbatim>\<open>if (v)\<close> and \<^verbatim>\<open>!v\<close>: the falsy values are undefined, null, false, 0 and "".\<close>

fun truthy :: "jsval \<Rightarrow> bool" where
  "truthy JUndefined = False"
| "truthy JNull = False"
| "truthy (JBool b) = b"
| "truthy (JNum n) = (n \<noteq> 0)"
| "truthy (JStr s) = (s \<noteq> [])"
| "truthy (JArr xs) = True"
| "truthy (JObj kvs) = True"

text \<open>\<^verbatim>\<open>o.k\<close> on an object of the model: the value bound to the key, or undefined.\<close>

definition field :: "obj \<Rightarrow> string \<Rightarrow> jsval" where
  "field kvs k = (case map_of kvs k of None \<Rightarrow> JUndefined | Some v \<Rightarrow> v)"

text \<open>
  \<^verbatim>\<open>v.k\<close> on a value that is neither null nor undefined, for the keys the code reads
  (type, text, state, status, output, error, input, summary, result): none of them is a
  built-in property of a string, number, boolean or array, so the read gives undefined
  on every such value that is not an object. On null and on undefined a read throws a
  \<^verbatim>\<open>TypeError\<close>: \<open>getProp\<close> has no equation for them, and a function that reads a
  property of a value that may be one of the two has the throw as a branch of its own.
\<close>

fun getProp :: "jsval \<Rightarrow> string \<Rightarrow> jsval" where
  "getProp (JObj kvs) k = field kvs k"
| "getProp (JBool b) k = JUndefined"
| "getProp (JNum n) k = JUndefined"
| "getProp (JStr s) k = JUndefined"
| "getProp (JArr xs) k = JUndefined"

fun nullish :: "jsval \<Rightarrow> bool" where
  "nullish JUndefined = True"
| "nullish JNull = True"
| "nullish v = False"

fun isString :: "jsval \<Rightarrow> bool" where
  "isString (JStr s) = True"
| "isString v = False"

fun isArray :: "jsval \<Rightarrow> bool" where
  "isArray (JArr xs) = True"
| "isArray v = False"

text \<open>The elements of \<^verbatim>\<open>Array.isArray(v) ? v : []\<close>.\<close>

fun elems :: "jsval \<Rightarrow> jsval list" where
  "elems (JArr xs) = xs"
| "elems v = []"

section \<open>What the code throws\<close>

datatype string_type = StartString | EndString

text \<open>
  The \<^verbatim>\<open>TypeError\<close> of a property read on null or undefined, and the three
  \<^verbatim>\<open>throw new Error(...)\<close> of \<^verbatim>\<open>findStringInMessages\<close>, in the order of the source. The
  message of the third one carries the two competing scores.
\<close>

datatype js_error =
    TypeError
  | MultipleExactMatches string_type
  | NotFound string_type
  | AmbiguousFuzzyMatch string_type int int

section \<open>Content extraction (lib/tools/distill.ts)\<close>

record Message =
  msg_id :: string

record WithParts =
  info :: Message
  parts :: jsval

record CompressSummary =
  anchorMessageId :: string
  summary :: string

text \<open>\<^verbatim>\<open>if (typeof v === "string") content += " " + v\<close>\<close>

fun addIfString :: "string \<Rightarrow> jsval \<Rightarrow> string" where
  "addIfString content (JStr s) = content @ '' '' @ s"
| "addIfString content v = content"

text \<open>
  The case \<^verbatim>\<open>"tool"\<close> of the switch. \<^verbatim>\<open>JSON.stringify\<close> is a built-in of the
  language, not code of the repository: it is the parameter \<open>stringify\<close>.
\<close>

definition toolCase :: "(jsval \<Rightarrow> string) \<Rightarrow> jsval \<Rightarrow> string \<Rightarrow> string" where
  "toolCase stringify p content =
     (let state = getProp p ''state'' in
      if \<not> truthy state then content
      else
        let content1 =
              (if getProp state ''status'' = JStr ''completed'' \<and> isString (getProp state ''output'')
               then addIfString content (getProp state ''output'')
               else if getProp state ''status'' = JStr ''error'' \<and> isString (getProp state ''error'')
               then addIfString content (getProp state ''error'')
               else content);
            input = getProp state ''input''
        in if truthy input
           then content1 @ '' '' @ (case input of JStr s \<Rightarrow> s | v \<Rightarrow> stringify v)
           else content1)"

text \<open>
  One iteration of the loop over the parts: the switch on \<^verbatim>\<open>part.type\<close>. The read of
  \<^verbatim>\<open>part.type\<close> throws when the entry of the array is null or undefined. Every other read
  is on the same entry, or on a state that has passed the truthiness test, and cannot
  throw.
\<close>

definition partStep :: "(jsval \<Rightarrow> string) \<Rightarrow> jsval \<Rightarrow> string \<Rightarrow> js_error + string" where
  "partStep stringify p content =
     (if nullish p then Inl TypeError
      else Inr
        (let ty = getProp p ''type'' in
         if ty = JStr ''text'' \<or> ty = JStr ''reasoning'' then addIfString content (getProp p ''text'')
         else if ty = JStr ''tool'' then toolCase stringify p content
         else if ty = JStr ''compaction'' then addIfString content (getProp p ''summary'')
         else if ty = JStr ''subtask''
         then addIfString (addIfString content (getProp p ''summary'')) (getProp p ''result'')
         else content))"

text \<open>The loop over the parts, from the content built so far: it stops at the first throw.\<close>

fun extractLoop :: "(jsval \<Rightarrow> string) \<Rightarrow> jsval list \<Rightarrow> string \<Rightarrow> js_error + string" where
  "extractLoop stringify [] content = Inr content"
| "extractLoop stringify (p # ps) content =
     (case partStep stringify p content of
        Inl e \<Rightarrow> Inl e
      | Inr content' \<Rightarrow> extractLoop stringify ps content')"

definition extractMessageContent :: "(jsval \<Rightarrow> string) \<Rightarrow> WithParts \<Rightarrow> js_error + string" where
  "extractMessageContent stringify msg = extractLoop stringify (elems (parts msg)) []"

section \<open>The match engine (lib/tools/distill.ts)\<close>

record FuzzyConfig =
  minScore :: int
  minGap :: int

definition DEFAULT_FUZZY_CONFIG :: FuzzyConfig where
  "DEFAULT_FUZZY_CONFIG = \<lparr>minScore = 85, minGap = 15\<rparr>"

datatype match_type = Exact | Fuzzy

text \<open>
  The value \<^verbatim>\<open>{ messageId, messageIndex }\<close> that resolution returns, and the interface
  \<^verbatim>\<open>MatchResult\<close>, which has the same two fields, a score and a match type.
\<close>

record Locator =
  messageId :: string
  messageIndex :: int

record MatchResult = Locator +
  score :: int
  matchType :: match_type

text \<open>
  \<^verbatim>\<open>content.includes(searchString)\<close>: the search string occurs at some position of the
  content. The empty search string occurs in every content.
\<close>

fun str_includes :: "'a list \<Rightarrow> 'a list \<Rightarrow> bool" where
  "str_includes [] needle = (needle = [])"
| "str_includes (c # cs) needle = (prefix needle (c # cs) \<or> str_includes cs needle)"

text \<open>\<^verbatim>\<open>xs.findIndex(P)\<close>: the index of the first element that satisfies \<open>P\<close>, or -1.\<close>

fun findIndexFrom :: "('a \<Rightarrow> bool) \<Rightarrow> 'a list \<Rightarrow> int \<Rightarrow> int" where
  "findIndexFrom P [] i = - 1"
| "findIndexFrom P (x # xs) i = (if P x then i else findIndexFrom P xs (i + 1))"

definition findIndex :: "('a \<Rightarrow> bool) \<Rightarrow> 'a list \<Rightarrow> int" where
  "findIndex P xs = findIndexFrom P xs 0"

text \<open>
  The state of both loops of a scan: the array \<^verbatim>\<open>matches\<close> and the set
  \<^verbatim>\<open>seenMessageIds\<close>.
\<close>

type_synonym scan = "MatchResult list \<times> string set"

text \<open>
  The body of the loop over the compress summaries. \<open>hit\<close> says whether the summary
  matches and \<open>sc\<close> is the score and \<open>mt\<close> the match type of the candidate pushed: the
  two scans differ in nothing else.
\<close>

definition summaryStep ::
  "WithParts list \<Rightarrow> bool \<Rightarrow> int \<Rightarrow> match_type \<Rightarrow> CompressSummary \<Rightarrow> scan \<Rightarrow> scan" where
  "summaryStep messages hit sc mt s st =
     (case st of (matches, seenMessageIds) \<Rightarrow>
        if hit then
          let anchorIndex = findIndex (\<lambda>m. msg_id (info m) = anchorMessageId s) messages in
          if anchorIndex \<noteq> - 1 \<and> anchorMessageId s \<notin> seenMessageIds
          then (matches @ [\<lparr>messageId = anchorMessageId s, messageIndex = anchorIndex,
                             score = sc, matchType = mt\<rparr>],
                insert (anchorMessageId s) seenMessageIds)
          else (matches, seenMessageIds)
        else (matches, seenMessageIds))"

text \<open>
  The end of the body of the loop over the raw messages, at index \<open>i\<close>, for a message that
  has not been skipped and whose content has been extracted.
\<close>

definition messageStep :: "bool \<Rightarrow> int \<Rightarrow> match_type \<Rightarrow> WithParts \<Rightarrow> int \<Rightarrow> scan \<Rightarrow> scan" where
  "messageStep hit sc mt msg i st =
     (case st of (matches, seenMessageIds) \<Rightarrow>
        if hit
        then (matches @ [\<lparr>messageId = msg_id (info msg), messageIndex = i,
                           score = sc, matchType = mt\<rparr>],
              insert (msg_id (info msg)) seenMessageIds)
        else (matches, seenMessageIds))"

subsection \<open>findExactMatches\<close>

definition exactSummaryStep :: "WithParts list \<Rightarrow> string \<Rightarrow> CompressSummary \<Rightarrow> scan \<Rightarrow> scan" where
  "exactSummaryStep messages searchString s st =
     summaryStep messages (str_includes (summary s) searchString) 100 Exact s st"

text \<open>
  The loop over the raw messages: a message whose identifier has been seen is skipped
  before its content is extracted; the extraction of the content of any other message may
  throw, and the throw ends the scan.
\<close>

fun exactMessageLoop ::
  "(jsval \<Rightarrow> string) \<Rightarrow> string \<Rightarrow> WithParts list \<Rightarrow> int \<Rightarrow> scan \<Rightarrow> js_error + scan" where
  "exactMessageLoop stringify searchString [] i st = Inr st"
| "exactMessageLoop stringify searchString (msg # rest) i st =
     (if msg_id (info msg) \<in> snd st then exactMessageLoop stringify searchString rest (i + 1) st
      else
        (case extractMessageContent stringify msg of
           Inl e \<Rightarrow> Inl e
         | Inr content \<Rightarrow>
             exactMessageLoop stringify searchString rest (i + 1)
               (messageStep (str_includes content searchString) 100 Exact msg i st)))"

definition findExactMatches ::
  "(jsval \<Rightarrow> string) \<Rightarrow> WithParts list \<Rightarrow> string \<Rightarrow> CompressSummary list \<Rightarrow>
   js_error + MatchResult list" where
  "findExactMatches stringify messages searchString compressSummaries =
     (case exactMessageLoop stringify searchString messages 0
             (fold (exactSummaryStep messages searchString) compressSummaries ([], {})) of
        Inl e \<Rightarrow> Inl e
      | Inr st \<Rightarrow> Inr (fst st))"

subsection \<open>findFuzzyMatches\<close>

text \<open>
  \<^verbatim>\<open>partial_ratio\<close> comes from the library fuzzball, not from the repository: it is the
  parameter \<open>partial_ratio\<close>, with no assumption on the scores it gives.
\<close>

definition fuzzySummaryStep ::
  "(string \<Rightarrow> string \<Rightarrow> int) \<Rightarrow> WithParts list \<Rightarrow> string \<Rightarrow> int \<Rightarrow> CompressSummary \<Rightarrow> scan \<Rightarrow> scan" where
  "fuzzySummaryStep partial_ratio messages searchString minSc s st =
     (let sc = partial_ratio searchString (summary s) in
      summaryStep messages (sc \<ge> minSc) sc Fuzzy s st)"

fun fuzzyMessageLoop ::
  "(string \<Rightarrow> string \<Rightarrow> int) \<Rightarrow> (jsval \<Rightarrow> string) \<Rightarrow> string \<Rightarrow> int \<Rightarrow> WithParts list \<Rightarrow> int \<Rightarrow> scan \<Rightarrow>
   js_error + scan" where
  "fuzzyMessageLoop partial_ratio stringify searchString minSc [] i st = Inr st"
| "fuzzyMessageLoop partial_ratio stringify searchString minSc (msg # rest) i st =
     (if msg_id (info msg) \<in> snd st
      then fuzzyMessageLoop partial_ratio stringify searchString minSc rest (i + 1) st
      else
        (case extractMessageContent stringify msg of
           Inl e \<Rightarrow> Inl e
         | Inr content \<Rightarrow>
             fuzzyMessageLoop partial_ratio stringify searchString minSc rest (i + 1)
               (let sc = partial_ratio searchString content in
                messageStep (sc \<ge> minSc) sc Fuzzy msg i st)))"

definition findFuzzyMatches ::
  "(string \<Rightarrow> string \<Rightarrow> int) \<Rightarrow> (jsval \<Rightarrow> string) \<Rightarrow> WithParts list \<Rightarrow> string \<Rightarrow>
   CompressSummary list \<Rightarrow> int \<Rightarrow> js_error + MatchResult list" where
  "findFuzzyMatches partial_ratio stringify messages searchString compressSummaries minSc =
     (case fuzzyMessageLoop partial_ratio stringify searchString minSc messages 0
             (fold (fuzzySummaryStep partial_ratio messages searchString minSc) compressSummaries
                ([], {})) of
        Inl e \<Rightarrow> Inl e
      | Inr st \<Rightarrow> Inr (fst st))"

subsection \<open>findStringInMessages\<close>

text \<open>
  The ambiguity failures: more than one exact candidate, or two fuzzy candidates that
  score too close to each other.
\<close>

fun isAmbiguousMatch :: "js_error \<Rightarrow> bool" where
  "isAmbiguousMatch (MultipleExactMatches t) = True"
| "isAmbiguousMatch (AmbiguousFuzzyMatch t a b) = True"
| "isAmbiguousMatch (NotFound t) = False"
| "isAmbiguousMatch TypeError = False"

text \<open>
  The one call of the logger, \<^verbatim>\<open>logger.info\<close> with the string type, the score and the
  message index of the accepted fuzzy candidate.
\<close>

datatype log_entry = FuzzyMatched string_type int int

text \<open>
  \<^verbatim>\<open>fuzzyMatches.sort((a, b) => b.score - a.score)\<close>: a stable sort, by score
  descending.
\<close>

definition sortByScoreDesc :: "MatchResult list \<Rightarrow> MatchResult list" where
  "sortByScoreDesc ms = sort_key (\<lambda>m. - score m) ms"

definition toLocator :: "MatchResult \<Rightarrow> Locator" where
  "toLocator m = \<lparr>messageId = messageId m, messageIndex = messageIndex m\<rparr>"

text \<open>
  The second phase, entered with the fuzzy candidates. The result is the error thrown, or
  the locator returned together with what was logged. Sorting the empty array gives the
  empty array, so the test \<^verbatim>\<open>fuzzyMatches.length === 0\<close>, which the source makes before
  it sorts, is the first case.
\<close>

definition fuzzyPhase ::
  "string_type \<Rightarrow> FuzzyConfig \<Rightarrow> MatchResult list \<Rightarrow> js_error + Locator \<times> log_entry list" where
  "fuzzyPhase stringType fuzzyConfig fuzzyMatches =
     (case sortByScoreDesc fuzzyMatches of
        [] \<Rightarrow> Inl (NotFound stringType)
      | best # rest \<Rightarrow>
          (case rest of
             secondBest # others \<Rightarrow>
               if score best - score secondBest < minGap fuzzyConfig
               then Inl (AmbiguousFuzzyMatch stringType (score best) (score secondBest))
               else Inr (toLocator best, [FuzzyMatched stringType (score best) (messageIndex best)])
           | [] \<Rightarrow> Inr (toLocator best, [FuzzyMatched stringType (score best) (messageIndex best)])))"

text \<open>
  The two parameters with a default value are options: \<open>None\<close> is the argument left out,
  which JavaScript replaces by the default.
\<close>

definition summariesOrDefault :: "CompressSummary list option \<Rightarrow> CompressSummary list" where
  "summariesOrDefault arg = (case arg of None \<Rightarrow> [] | Some cs \<Rightarrow> cs)"

definition configOrDefault :: "FuzzyConfig option \<Rightarrow> FuzzyConfig" where
  "configOrDefault arg = (case arg of None \<Rightarrow> DEFAULT_FUZZY_CONFIG | Some c \<Rightarrow> c)"

definition findStringInMessages ::
  "(string \<Rightarrow> string \<Rightarrow> int) \<Rightarrow> (jsval \<Rightarrow> string) \<Rightarrow> WithParts list \<Rightarrow> string \<Rightarrow>
   CompressSummary list option \<Rightarrow> string_type \<Rightarrow> FuzzyConfig option \<Rightarrow>
   js_error + Locator \<times> log_entry list" where
  "findStringInMessages partial_ratio stringify messages searchString compressSummariesArg
       stringType fuzzyConfigArg =
     (let compressSummaries = summariesOrDefault compressSummariesArg;
          fuzzyConfig = configOrDefault fuzzyConfigArg
      in case findExactMatches stringify messages searchString compressSummaries of
           Inl e \<Rightarrow> Inl e
         | Inr exactMatches \<Rightarrow>
             (case exactMatches of
                [m] \<Rightarrow> Inr (toLocator m, [])
              | m # m' # ms \<Rightarrow> Inl (MultipleExactMatches stringType)
              | [] \<Rightarrow>
                  (case findFuzzyMatches partial_ratio stringify messages searchString
                          compressSummaries (minScore fuzzyConfig) of
                     Inl e \<Rightarrow> Inl e
                   | Inr fuzzyMatches \<Rightarrow> fuzzyPhase stringType fuzzyConfig fuzzyMatches)))"

section \<open>Auxiliary notions for the proofs about the match engine\<close>

text \<open>
  The two scans run the same two loops and differ only in the test that makes a hit and in
  the score. The proofs are done once, on the loops with the test and the score as
  parameters, and transferred to the functions of the source. For a raw message the test
  and the score come from its content: \<open>probe\<close> gives both, or the error of the
  extraction.
\<close>

fun scanMessages ::
  "(WithParts \<Rightarrow> js_error + bool \<times> int) \<Rightarrow> match_type \<Rightarrow> WithParts list \<Rightarrow> int \<Rightarrow> scan \<Rightarrow>
   js_error + scan" where
  "scanMessages probe mt [] i st = Inr st"
| "scanMessages probe mt (msg # rest) i st =
     (if msg_id (info msg) \<in> snd st then scanMessages probe mt rest (i + 1) st
      else
        (case probe msg of
           Inl e \<Rightarrow> Inl e
         | Inr r \<Rightarrow> scanMessages probe mt rest (i + 1) (messageStep (fst r) (snd r) mt msg i st)))"

definition exactProbe :: "(jsval \<Rightarrow> string) \<Rightarrow> string \<Rightarrow> WithParts \<Rightarrow> js_error + bool \<times> int" where
  "exactProbe stringify searchString msg =
     (case extractMessageContent stringify msg of
        Inl e \<Rightarrow> Inl e
      | Inr content \<Rightarrow> Inr (str_includes content searchString, 100))"

definition fuzzyProbe ::
  "(string \<Rightarrow> string \<Rightarrow> int) \<Rightarrow> (jsval \<Rightarrow> string) \<Rightarrow> string \<Rightarrow> int \<Rightarrow> WithParts \<Rightarrow>
   js_error + bool \<times> int" where
  "fuzzyProbe partial_ratio stringify searchString minSc msg =
     (case extractMessageContent stringify msg of
        Inl e \<Rightarrow> Inl e
      | Inr content \<Rightarrow>
          Inr (minSc \<le> partial_ratio searchString content, partial_ratio searchString content))"

definition scanSummaries ::
  "(CompressSummary \<Rightarrow> bool) \<Rightarrow> (CompressSummary \<Rightarrow> int) \<Rightarrow> match_type \<Rightarrow> WithParts list \<Rightarrow>
   CompressSummary list \<Rightarrow> scan \<Rightarrow> scan" where
  "scanSummaries hit sc mt messages sums st =
     fold (\<lambda>s. summaryStep messages (hit s) (sc s) mt s) sums st"

definition scanInv :: "scan \<Rightarrow> bool" where
  "scanInv st = (snd st = set (map messageId (fst st)) \<and> distinct (map messageId (fst st)))"

definition orphaned :: "WithParts list \<Rightarrow> CompressSummary \<Rightarrow> bool" where
  "orphaned messages s = (anchorMessageId s \<notin> set (map (\<lambda>m. msg_id (info m)) messages))"

definition summaryCand ::
  "(CompressSummary \<Rightarrow> bool) \<Rightarrow> (CompressSummary \<Rightarrow> int) \<Rightarrow> match_type \<Rightarrow> WithParts list \<Rightarrow>
   CompressSummary list \<Rightarrow> MatchResult \<Rightarrow> bool" where
  "summaryCand hit sc mt messages sums c =
     (\<exists>s\<in>set sums. hit s \<and> \<not> orphaned messages s \<and> messageId c = anchorMessageId s \<and>
        messageIndex c = findIndex (\<lambda>m. msg_id (info m) = anchorMessageId s) messages \<and>
        score c = sc s \<and> matchType c = mt)"

definition messageCand ::
  "(WithParts \<Rightarrow> js_error + bool \<times> int) \<Rightarrow> match_type \<Rightarrow> WithParts list \<Rightarrow> int \<Rightarrow>
   MatchResult \<Rightarrow> bool" where
  "messageCand probe mt msgs i c =
     (\<exists>k<length msgs. probe (msgs ! k) = Inr (True, score c) \<and>
        messageId c = msg_id (info (msgs ! k)) \<and>
        messageIndex c = i + int k \<and> matchType c = mt)"

section \<open>The contract of the content extractor\<close>

text \<open>
  The fragments that one part contributes: the text of a text or reasoning part; for a
  tool part the output when the status is completed or the error when the status is
  error, then the input, stringified when it is not a string; the summary of a compaction
  part; the summary and then the result of a subtask part. A field that is not a string
  contributes nothing, and neither does an input that is not present: \<open>present\<close> says
  which inputs are. An entry of the parts that is null or undefined has no fragment.
\<close>

fun stringFragment :: "jsval \<Rightarrow> string list" where
  "stringFragment (JStr s) = [s]"
| "stringFragment v = []"

definition toolFragments :: "(jsval \<Rightarrow> bool) \<Rightarrow> (jsval \<Rightarrow> string) \<Rightarrow> jsval \<Rightarrow> string list" where
  "toolFragments present stringify state =
     (if getProp state ''status'' = JStr ''completed'' then stringFragment (getProp state ''output'')
      else if getProp state ''status'' = JStr ''error'' then stringFragment (getProp state ''error'')
      else [])
     @ (if present (getProp state ''input'')
        then [case getProp state ''input'' of JStr s \<Rightarrow> s | v \<Rightarrow> stringify v]
        else [])"

definition fragmentsWith :: "(jsval \<Rightarrow> bool) \<Rightarrow> (jsval \<Rightarrow> string) \<Rightarrow> jsval \<Rightarrow> string list" where
  "fragmentsWith present stringify p =
     (if nullish p then []
      else if getProp p ''type'' = JStr ''text'' \<or> getProp p ''type'' = JStr ''reasoning''
      then stringFragment (getProp p ''text'')
      else if getProp p ''type'' = JStr ''tool''
      then (if truthy (getProp p ''state'')
            then toolFragments present stringify (getProp p ''state'') else [])
      else if getProp p ''type'' = JStr ''compaction'' then stringFragment (getProp p ''summary'')
      else if getProp p ''type'' = JStr ''subtask''
      then stringFragment (getProp p ''summary'') @ stringFragment (getProp p ''result'')
      else [])"

text \<open>Fragments separated by single spaces: a space between two fragments and nowhere else.\<close>

fun spaceSeparated :: "string list \<Rightarrow> string" where
  "spaceSeparated [] = []"
| "spaceSeparated [f] = f"
| "spaceSeparated (f # g # fs) = f @ '' '' @ spaceSeparated (g # fs)"

text \<open>
  The result that the contract words: the fragments of the parts in part order, where
  every input that is not absent (undefined or null) is present, separated by spaces.
\<close>

definition claimedExtract :: "(jsval \<Rightarrow> string) \<Rightarrow> WithParts \<Rightarrow> string" where
  "claimedExtract stringify msg =
     spaceSeparated (concat (map (fragmentsWith (\<lambda>v. \<not> nullish v) stringify) (elems (parts msg))))"

text \<open>
  The fragments as the code takes them: an input is present when it is truthy.
\<close>

definition fragments :: "(jsval \<Rightarrow> string) \<Rightarrow> jsval \<Rightarrow> string list" where
  "fragments stringify p = fragmentsWith truthy stringify p"

definition messageFragments :: "(jsval \<Rightarrow> string) \<Rightarrow> WithParts \<Rightarrow> string list" where
  "messageFragments stringify msg = concat (map (fragments stringify) (elems (parts msg)))"

text \<open>Every fragment preceded by a single space.\<close>

definition spacePrefixed :: "string list \<Rightarrow> string" where
  "spacePrefixed fs = concat (map (\<lambda>f. '' '' @ f) fs)"

section \<open>The Anthropic format descriptor and the detection chain\<close>


definition textBlock :: "string \<Rightarrow> jsval" where
  "textBlock t = JObj [(''type'', JStr ''text''), (''text'', JStr t)]"

text \<open>
  \<^verbatim>\<open>injectSystemMessage\<close> changes the body in place and returns true: the model returns the
  new body and the result. An assignment to a field of an object is \<open>AList.update\<close>: it
  replaces the binding of the key where it stands, or adds one at the end.
\<close>

definition anthropicFormat_injectSystemMessage :: "obj \<Rightarrow> string \<Rightarrow> obj \<times> bool" where
  "anthropicFormat_injectSystemMessage body injection =
     (let body1 =
            (case field body ''system'' of
               JStr s \<Rightarrow> AList.update ''system'' (JArr [textBlock s]) body
             | JArr xs \<Rightarrow> body
             | v \<Rightarrow> AList.update ''system'' (JArr []) body)
      in (AList.update ''system''
            (JArr (elems (field body1 ''system'') @ [textBlock injection])) body1,
          True))"








subsection \<open>replaceToolOutput\<close>

text \<open>
  \<^verbatim>\<open>toLowerCase\<close> on the characters of the model: the letters A to Z (codes 65 to 90)
  and the capital letters of Latin-1 (codes 192 to 222, but for the sign 215) are moved
  by 32; every other character is left as it is.
\<close>

definition lowerChar :: "char \<Rightarrow> char" where
  "lowerChar c =
     (let n = (of_char c :: nat) in
      if (65 \<le> n \<and> n \<le> 90) \<or> (192 \<le> n \<and> n \<le> 222 \<and> n \<noteq> 215) then char_of (n + 32) else c)"

definition toLowerCase :: "string \<Rightarrow> string" where
  "toLowerCase s = map lowerChar s"

text \<open>
  Modelled from the spec: the body of \<^verbatim>\<open>replaceToolOutput\<close> of the Anthropic descriptor is
  missing from the sources. The implementation notes give its signature and the object it
  builds for a block it replaces, \<^verbatim>\<open>{...block, content: prunedMessage}\<close>, and the test
  calls it on the messages of a body. After the specification, a tool-result entry is a
  content block with type tool_result inside a message of role user; it is found by its
  identifier tool_use_id, compared case-folded; only its content field is overwritten;
  the result says whether an entry was found.
\<close>

text \<open>
  Modelled from the spec: a field of an entry of the body (a message, or a block of its
  content). An entry that is not an object has no field.
\<close>

fun fieldOf :: "jsval \<Rightarrow> string \<Rightarrow> jsval" where
  "fieldOf (JObj kvs) k = field kvs k"
| "fieldOf v k = JUndefined"

definition isToolResultFor :: "string \<Rightarrow> jsval \<Rightarrow> bool" where
  "isToolResultFor toolId block =
     (fieldOf block ''type'' = JStr ''tool_result'' \<and>
      (case fieldOf block ''tool_use_id'' of
         JStr i \<Rightarrow> toLowerCase i = toLowerCase toolId
       | v \<Rightarrow> False))"

fun replaceBlock :: "string \<Rightarrow> string \<Rightarrow> jsval \<Rightarrow> jsval" where
  "replaceBlock toolId prunedMessage (JObj kvs) =
     (if isToolResultFor toolId (JObj kvs)
      then JObj (AList.update ''content'' (JStr prunedMessage) kvs)
      else JObj kvs)"
| "replaceBlock toolId prunedMessage v = v"

definition carriesToolResults :: "jsval \<Rightarrow> bool" where
  "carriesToolResults m = (fieldOf m ''role'' = JStr ''user'' \<and> isArray (fieldOf m ''content''))"

fun replaceInMessage :: "string \<Rightarrow> string \<Rightarrow> jsval \<Rightarrow> jsval" where
  "replaceInMessage toolId prunedMessage (JObj kvs) =
     (if carriesToolResults (JObj kvs)
      then JObj (AList.update ''content''
                   (JArr (map (replaceBlock toolId prunedMessage) (elems (field kvs ''content'')))) kvs)
      else JObj kvs)"
| "replaceInMessage toolId prunedMessage v = v"

definition hasToolResultFor :: "string \<Rightarrow> jsval \<Rightarrow> bool" where
  "hasToolResultFor toolId m =
     (carriesToolResults m \<and> list_ex (isToolResultFor toolId) (elems (fieldOf m ''content'')))"

definition anthropicFormat_replaceToolOutput ::
  "jsval list \<Rightarrow> string \<Rightarrow> string \<Rightarrow> jsval list \<times> bool" where
  "anthropicFormat_replaceToolOutput data toolId prunedMessage =
     (map (replaceInMessage toolId prunedMessage) data, list_ex (hasToolResultFor toolId) data)"

section \<open>The distill tool (lib/tools/distill.ts)\<close>

text \<open>
  \<^verbatim>\<open>id.trim()\<close> removes the white space and the line terminators at both ends. Among
  the characters of the model these are the codes 9 to 13, 32 and 160.
\<close>

definition isWhiteSpace :: "char \<Rightarrow> bool" where
  "isWhiteSpace c = (let n = (of_char c :: nat) in (9 \<le> n \<and> n \<le> 13) \<or> n = 32 \<or> n = 160)"

definition trim :: "string \<Rightarrow> string" where
  "trim s = rev (dropWhile isWhiteSpace (rev (dropWhile isWhiteSpace s)))"

text \<open>A string of white space only; the empty string is one.\<close>

definition whitespaceOnly :: "string \<Rightarrow> bool" where
  "whitespaceOnly s = list_all isWhiteSpace s"

text \<open>The four \<^verbatim>\<open>throw new Error(...)\<close> of \<^verbatim>\<open>execute\<close>, in the order of the source.\<close>

datatype distill_error = MissingIds | InvalidIds | MissingDistillation | InvalidDistillation

text \<open>\<^verbatim>\<open>!v || !Array.isArray(v) || v.length === 0\<close>\<close>

definition missingArray :: "jsval \<Rightarrow> bool" where
  "missingArray v = (\<not> truthy v \<or> \<not> isArray v \<or> length (elems v) = 0)"

text \<open>\<^verbatim>\<open>typeof id === "string" && id.trim() !== ""\<close>\<close>

fun validId :: "jsval \<Rightarrow> bool" where
  "validId (JStr s) = (trim s \<noteq> [])"
| "validId v = False"

text \<open>
  \<^verbatim>\<open>execute\<close> of the distill tool. \<^verbatim>\<open>executePruneOperation\<close> is imported from a file that
  is not among the sources: it is a parameter, called on the identifiers, the reason
  "extraction", the tool name "Distill" and the distillation. The result is the error
  thrown, or what the prune operation returns. The debug messages logged before each throw
  and the two context arguments are left out.
\<close>

definition execute ::
  "(jsval \<Rightarrow> string \<Rightarrow> string \<Rightarrow> jsval \<Rightarrow> 'r) \<Rightarrow> jsval \<Rightarrow> jsval \<Rightarrow> distill_error + 'r" where
  "execute executePruneOperation ids distillation =
     (if missingArray ids then Inl MissingIds
      else if \<not> list_all validId (elems ids) then Inl InvalidIds
      else if missingArray distillation then Inl MissingDistillation
      else if \<not> list_all isString (elems distillation) then Inl InvalidDistillation
      else Inr (executePruneOperation ids ''extraction'' ''Distill'' distillation))"

text \<open>
  A record of the call of the prune operation, for the statements that say whether it was
  called and with what.
\<close>

datatype prune_call = PruneCall jsval string string jsval

section \<open>Example data\<close>

definition textPart :: "string \<Rightarrow> jsval" where
  "textPart s = JObj [(''type'', JStr ''text''), (''text'', JStr s)]"

definition exMessages :: "WithParts list" where
  "exMessages =
     [\<lparr>info = \<lparr>msg_id = ''m1''\<rparr>, parts = JArr [textPart ''alpha beta'']\<rparr>,
      \<lparr>info = \<lparr>msg_id = ''m2''\<rparr>, parts = JArr [textPart ''gamma'', textPart ''beta'']\<rparr>]"

definition exStringify :: "jsval \<Rightarrow> string" where
  "exStringify v =
     (case v of
        JNull \<Rightarrow> ''null''
      | JBool b \<Rightarrow> (if b then ''true'' else ''false'')
      | JArr xs \<Rightarrow> ''[]''
      | w \<Rightarrow> ''{}'')"

definition exRatio :: "string \<Rightarrow> string \<Rightarrow> int" where
  "exRatio s t = (if t = '' alpha beta'' then 95 else if t = '' gamma beta'' then 90 else 40)"

definition exOrphan :: CompressSummary where
  "exOrphan = \<lparr>anchorMessageId = ''m9'', summary = ''a zzz b''\<rparr>"

definition exAnchored :: CompressSummary where
  "exAnchored = \<lparr>anchorMessageId = ''m2'', summary = ''about beta''\<rparr>"

definition exToolPart :: jsval where
  "exToolPart = JObj [(''type'', JStr ''tool''),
     (''state'', JObj [(''status'', JStr ''completed''), (''output'', JStr ''done''),
                      (''input'', JObj [(''path'', JStr ''a.txt'')])])]"

definition exMessage :: WithParts where
  "exMessage = \<lparr>info = \<lparr>msg_id = ''m0''\<rparr>, parts = JArr [textPart ''alpha'', exToolPart]\<rparr>"

definition exBodyString :: obj where
  "exBodyString = [(''system'', JStr ''Original system''), (''messages'', JArr [])]"

definition exBodyArray :: obj where
  "exBodyArray = [(''system'', JArr [textBlock ''Original'']), (''messages'', JArr [])]"

definition exBodyAbsent :: obj where
  "exBodyAbsent = [(''model'', JStr ''claude''), (''messages'', JArr [])]"

definition exFalsyInput :: WithParts where
  "exFalsyInput = \<lparr>info = \<lparr>msg_id = ''m0''\<rparr>,
     parts = JArr [JObj [(''type'', JStr ''tool''),
       (''state'', JObj [(''status'', JStr ''completed''), (''output'', JStr ''done''),
                        (''input'', JBool False)])]]\<rparr>"

definition exNullPart :: WithParts where
  "exNullPart = \<lparr>info = \<lparr>msg_id = ''m0''\<rparr>, parts = JArr [textPart ''alpha'', JNull]\<rparr>"

definition exToolResult :: jsval where
  "exToolResult = JObj [(''type'', JStr ''tool_result''), (''tool_use_id'', JStr ''toolu_456''),
                        (''content'', JStr ''Original content''), (''is_error'', JBool False)]"

definition exData :: "jsval list" where
  "exData = [JObj [(''role'', JStr ''user''),
                   (''content'', JArr [JObj [(''type'', JStr ''text''), (''text'', JStr ''hi'')],
                                       exToolResult])]]"

section \<open>Lemmas about the scans\<close>

lemma str_includes_sublist: "str_includes hay needle \<longleftrightarrow> sublist needle hay"
  by (induction hay) (auto simp: sublist_Cons_right)

lemma findIndexFrom_none_iff: "0 \<le> i \<Longrightarrow> findIndexFrom P xs i = - 1 \<longleftrightarrow> (\<forall>x\<in>set xs. \<not> P x)"
  by (induction xs arbitrary: i) (auto split: if_splits)

lemma findIndex_none_iff: "findIndex P xs = - 1 \<longleftrightarrow> (\<forall>x\<in>set xs. \<not> P x)"
  by (simp add: findIndex_def findIndexFrom_none_iff)

lemma findIndexFrom_first:
  "\<exists>x\<in>set xs. P x \<Longrightarrow>
   \<exists>k<length xs. findIndexFrom P xs i = i + int k \<and> P (xs ! k) \<and> (\<forall>j<k. \<not> P (xs ! j))"
proof (induction xs arbitrary: i)
  case Nil
  then show ?case by simp
next
  case (Cons x xs)
  show ?case
  proof (cases "P x")
    case True
    then show ?thesis by (intro exI[of _ 0]) simp
  next
    case False
    with Cons.prems have "\<exists>x\<in>set xs. P x" by auto
    from Cons.IH[OF this, of "i + 1"] obtain k where
      k: "k < length xs" "findIndexFrom P xs (i + 1) = i + 1 + int k" "P (xs ! k)" "\<forall>j<k. \<not> P (xs ! j)"
      by blast
    show ?thesis
    proof (intro exI[of _ "Suc k"] conjI allI impI)
      fix j assume "j < Suc k"
      then show "\<not> P ((x # xs) ! j)" using False k(4) by (cases j) auto
    qed (use False k in auto)
  qed
qed

lemma findIndex_orphaned:
  "findIndex (\<lambda>m. msg_id (info m) = anchorMessageId s) messages = - 1 \<longleftrightarrow> orphaned messages s"
  by (force simp: findIndex_none_iff orphaned_def)

lemma findIndex_anchor:
  assumes "\<not> orphaned messages s"
  shows "\<exists>k<length messages.
           findIndex (\<lambda>m. msg_id (info m) = anchorMessageId s) messages = int k \<and>
           msg_id (info (messages ! k)) = anchorMessageId s \<and>
           (\<forall>j<k. msg_id (info (messages ! j)) \<noteq> anchorMessageId s)"
proof -
  from assms have "\<exists>m\<in>set messages. msg_id (info m) = anchorMessageId s"
    by (auto simp: orphaned_def)
  from findIndexFrom_first[OF this, of 0] show ?thesis
    by (simp add: findIndex_def)
qed

lemma exactMessageLoop_scan:
  "exactMessageLoop stringify searchString msgs i st =
   scanMessages (exactProbe stringify searchString) Exact msgs i st"
  by (induction msgs arbitrary: i st) (simp_all add: exactProbe_def split: sum.split)

lemma fuzzyMessageLoop_scan:
  "fuzzyMessageLoop pr stringify searchString minSc msgs i st =
   scanMessages (fuzzyProbe pr stringify searchString minSc) Fuzzy msgs i st"
  by (induction msgs arbitrary: i st) (simp_all add: fuzzyProbe_def Let_def split: sum.split)

lemma exactSummary_scan:
  "fold (exactSummaryStep messages searchString) sums st =
   scanSummaries (\<lambda>s. str_includes (summary s) searchString) (\<lambda>s. 100) Exact messages sums st"
  unfolding scanSummaries_def exactSummaryStep_def by (rule arg_cong[where f="\<lambda>f. fold f sums st"]) auto

lemma fuzzySummary_scan:
  "fold (fuzzySummaryStep pr messages searchString minSc) sums st =
   scanSummaries (\<lambda>s. pr searchString (summary s) \<ge> minSc) (\<lambda>s. pr searchString (summary s)) Fuzzy messages sums st"
  unfolding scanSummaries_def fuzzySummaryStep_def Let_def by (rule arg_cong[where f="\<lambda>f. fold f sums st"]) auto

lemma summaryStep_inv: "scanInv st \<Longrightarrow> scanInv (summaryStep messages hit sc mt s st)"
  by (cases st) (auto simp: scanInv_def summaryStep_def Let_def)

lemma messageStep_inv:
  "scanInv st \<Longrightarrow> msg_id (info m) \<notin> snd st \<Longrightarrow> scanInv (messageStep hit sc mt m i st)"
  by (cases st) (auto simp: scanInv_def messageStep_def)

lemma scanSummaries_inv: "scanInv st \<Longrightarrow> scanInv (scanSummaries hit sc mt messages sums st)"
  unfolding scanSummaries_def
  by (induction sums arbitrary: st) (simp_all add: summaryStep_inv)

lemma scanMessages_inv:
  "scanInv st \<Longrightarrow> scanMessages probe mt msgs i st = Inr st' \<Longrightarrow> scanInv st'"
proof (induction msgs arbitrary: i st)
  case Nil
  then show ?case by simp
next
  case (Cons m msgs)
  show ?case
  proof (cases "msg_id (info m) \<in> snd st")
    case True
    with Cons.prems(2) have "scanMessages probe mt msgs (i + 1) st = Inr st'" by simp
    from Cons.IH[OF Cons.prems(1) this] show ?thesis .
  next
    case False
    with Cons.prems(2) obtain r where
      r: "probe m = Inr r"
         "scanMessages probe mt msgs (i + 1) (messageStep (fst r) (snd r) mt m i st) = Inr st'"
      by (auto split: sum.splits)
    from messageStep_inv[OF Cons.prems(1) False]
    have "scanInv (messageStep (fst r) (snd r) mt m i st)" .
    from Cons.IH[OF this r(2)] show ?thesis .
  qed
qed

lemma scanInv_init: "scanInv ([], {})"
  by (simp add: scanInv_def)

lemma summaryStep_orphaned: "orphaned messages s \<Longrightarrow> summaryStep messages hit sc mt s st = st"
  by (cases st) (simp add: summaryStep_def Let_def findIndex_orphaned)

lemma summaryStep_miss: "\<not> hit \<Longrightarrow> summaryStep messages hit sc mt s st = st"
  by (cases st) (simp add: summaryStep_def)

lemma messageStep_miss: "\<not> hit \<Longrightarrow> messageStep hit sc mt m i st = st"
  by (cases st) (simp add: messageStep_def)

lemma scanSummaries_filter:
  "scanSummaries hit sc mt messages (filter (\<lambda>s. \<not> orphaned messages s) sums) st =
   scanSummaries hit sc mt messages sums st"
  unfolding scanSummaries_def
  by (induction sums arbitrary: st) (simp_all add: summaryStep_orphaned)

lemma scanSummaries_miss:
  "\<forall>s\<in>set sums. orphaned messages s \<or> \<not> hit s \<Longrightarrow> scanSummaries hit sc mt messages sums st = st"
  unfolding scanSummaries_def
  by (induction sums arbitrary: st) (auto simp: summaryStep_orphaned summaryStep_miss)

lemma scanMessages_miss:
  "\<forall>m\<in>set msgs. \<exists>sc. probe m = Inr (False, sc) \<Longrightarrow> scanMessages probe mt msgs i st = Inr st"
  by (induction msgs arbitrary: i st) (auto simp: messageStep_miss)

lemma scanMessages_total:
  "\<forall>m\<in>set msgs. \<exists>r. probe m = Inr r \<Longrightarrow> \<exists>st'. scanMessages probe mt msgs i st = Inr st'"
proof (induction msgs arbitrary: i st)
  case Nil
  then show ?case by simp
next
  case (Cons m msgs)
  from Cons.prems obtain r where r: "probe m = Inr r" by auto
  from Cons.prems have all: "\<forall>m\<in>set msgs. \<exists>r. probe m = Inr r" by simp
  show ?case
  proof (cases "msg_id (info m) \<in> snd st")
    case True
    with Cons.IH[OF all, of "i + 1" st] show ?thesis by simp
  next
    case False
    with Cons.IH[OF all, of "i + 1" "messageStep (fst r) (snd r) mt m i st"] r
    show ?thesis by simp
  qed
qed

lemma summaryStep_cases:
  "summaryStep messages hit sc mt s st = st \<or>
   (hit \<and> \<not> orphaned messages s \<and> anchorMessageId s \<notin> snd st \<and>
    summaryStep messages hit sc mt s st =
      (fst st @ [\<lparr>messageId = anchorMessageId s,
                   messageIndex = findIndex (\<lambda>m. msg_id (info m) = anchorMessageId s) messages,
                   score = sc, matchType = mt\<rparr>], insert (anchorMessageId s) (snd st)))"
  by (cases st) (auto simp: summaryStep_def Let_def findIndex_orphaned)

lemma summaryCand_mono:
  "summaryCand hit sc mt messages sums c \<Longrightarrow> summaryCand hit sc mt messages (s # sums) c"
  by (auto simp: summaryCand_def)

lemma scanSummaries_Cons:
  "scanSummaries hit sc mt messages (s # sums) st =
   scanSummaries hit sc mt messages sums (summaryStep messages (hit s) (sc s) mt s st)"
  by (simp add: scanSummaries_def)

lemma scanSummaries_extra:
  "\<exists>extra. fst (scanSummaries hit sc mt messages sums st) = fst st @ extra \<and>
           snd (scanSummaries hit sc mt messages sums st) = snd st \<union> set (map messageId extra) \<and>
           (\<forall>c\<in>set extra. summaryCand hit sc mt messages sums c \<and> messageId c \<notin> snd st)"
proof (induction sums arbitrary: st)
  case Nil
  then show ?case by (simp add: scanSummaries_def)
next
  case (Cons s sums)
  let ?st1 = "summaryStep messages (hit s) (sc s) mt s st"
  from Cons.IH[of ?st1] obtain extra where
    e: "fst (scanSummaries hit sc mt messages sums ?st1) = fst ?st1 @ extra"
       "snd (scanSummaries hit sc mt messages sums ?st1) = snd ?st1 \<union> set (map messageId extra)"
       "\<forall>c\<in>set extra. summaryCand hit sc mt messages sums c \<and> messageId c \<notin> snd ?st1"
    by blast
  from summaryStep_cases[of messages "hit s" "sc s" mt s st]
  show ?case
  proof
    assume same: "?st1 = st"
    show ?thesis
      by (rule exI[of _ extra]) (use e same in \<open>auto simp: scanSummaries_Cons intro: summaryCand_mono\<close>)
  next
    let ?c = "\<lparr>messageId = anchorMessageId s,
                messageIndex = findIndex (\<lambda>m. msg_id (info m) = anchorMessageId s) messages,
                score = sc s, matchType = mt\<rparr>"
    assume push: "hit s \<and> \<not> orphaned messages s \<and> anchorMessageId s \<notin> snd st \<and>
      ?st1 = (fst st @ [?c], insert (anchorMessageId s) (snd st))"
    then have c: "summaryCand hit sc mt messages (s # sums) ?c"
      by (auto simp: summaryCand_def)
    show ?thesis
      by (rule exI[of _ "?c # extra"])
         (use e push c in \<open>auto simp: scanSummaries_Cons intro: summaryCand_mono\<close>)
  qed
qed

lemma scanSummaries_covers:
  "s \<in> set sums \<Longrightarrow> hit s \<Longrightarrow> \<not> orphaned messages s \<Longrightarrow>
   anchorMessageId s \<in> snd (scanSummaries hit sc mt messages sums st)"
proof (induction sums arbitrary: st)
  case Nil
  then show ?case by simp
next
  case (Cons a sums)
  let ?st1 = "summaryStep messages (hit a) (sc a) mt a st"
  from scanSummaries_extra[of hit sc mt messages sums ?st1]
  have grow: "snd ?st1 \<subseteq> snd (scanSummaries hit sc mt messages sums ?st1)" by auto
  show ?case
  proof (cases "s = a")
    case True
    with Cons.prems have "anchorMessageId s \<in> snd ?st1"
      by (cases st) (auto simp: summaryStep_def Let_def findIndex_orphaned)
    with grow show ?thesis by (auto simp: scanSummaries_Cons True)
  next
    case False
    with Cons.prems have "s \<in> set sums" by simp
    from Cons.IH[OF this Cons.prems(2,3)] show ?thesis by (simp add: scanSummaries_Cons)
  qed
qed


lemma messageStep_cases:
  "messageStep hit sc mt m i st = st \<or>
   (hit \<and>
    messageStep hit sc mt m i st =
      (fst st @ [\<lparr>messageId = msg_id (info m), messageIndex = i, score = sc, matchType = mt\<rparr>],
       insert (msg_id (info m)) (snd st)))"
  by (cases st) (auto simp: messageStep_def)

lemma messageCand_shift:
  "messageCand probe mt msgs (i + 1) c \<Longrightarrow> messageCand probe mt (m # msgs) i c"
  unfolding messageCand_def
proof (elim exE conjE)
  fix k assume "k < length msgs" "probe (msgs ! k) = Inr (True, score c)"
    "messageId c = msg_id (info (msgs ! k))" "messageIndex c = i + 1 + int k" "matchType c = mt"
  then show "\<exists>k<length (m # msgs). probe ((m # msgs) ! k) = Inr (True, score c) \<and>
        messageId c = msg_id (info ((m # msgs) ! k)) \<and>
        messageIndex c = i + int k \<and> matchType c = mt"
    by (intro exI[of _ "Suc k"]) simp
qed

lemma scanMessages_extra:
  "scanMessages probe mt msgs i st = Inr st' \<Longrightarrow>
   \<exists>extra. fst st' = fst st @ extra \<and>
           snd st' = snd st \<union> set (map messageId extra) \<and>
           (\<forall>c\<in>set extra. messageCand probe mt msgs i c \<and> messageId c \<notin> snd st)"
proof (induction msgs arbitrary: i st)
  case Nil
  then show ?case by auto
next
  case (Cons m msgs)
  show ?case
  proof (cases "msg_id (info m) \<in> snd st")
    case True
    with Cons.prems have "scanMessages probe mt msgs (i + 1) st = Inr st'" by simp
    from Cons.IH[OF this] obtain extra where
      e: "fst st' = fst st @ extra" "snd st' = snd st \<union> set (map messageId extra)"
         "\<forall>c\<in>set extra. messageCand probe mt msgs (i + 1) c \<and> messageId c \<notin> snd st"
      by blast
    show ?thesis
      by (rule exI[of _ extra]) (use e in \<open>auto intro: messageCand_shift\<close>)
  next
    case False
    let ?c = "\<lambda>r. \<lparr>messageId = msg_id (info m), messageIndex = i, score = snd r, matchType = mt\<rparr>"
    from False Cons.prems obtain r where
      r: "probe m = Inr r"
         "scanMessages probe mt msgs (i + 1) (messageStep (fst r) (snd r) mt m i st) = Inr st'"
      by (auto split: sum.splits)
    let ?st1 = "messageStep (fst r) (snd r) mt m i st"
    from Cons.IH[OF r(2)] obtain extra where
      e: "fst st' = fst ?st1 @ extra" "snd st' = snd ?st1 \<union> set (map messageId extra)"
         "\<forall>c\<in>set extra. messageCand probe mt msgs (i + 1) c \<and> messageId c \<notin> snd ?st1"
      by blast
    from messageStep_cases[of "fst r" "snd r" mt m i st]
    show ?thesis
    proof
      assume same: "?st1 = st"
      show ?thesis
        by (rule exI[of _ extra]) (use e same in \<open>auto intro: messageCand_shift\<close>)
    next
      assume push: "fst r \<and> ?st1 = (fst st @ [?c r], insert (msg_id (info m)) (snd st))"
      then have "r = (True, snd r)" by (cases r) simp
      with r(1) have "probe m = Inr (True, score (?c r))" by simp
      then have c: "messageCand probe mt (m # msgs) i (?c r)"
        unfolding messageCand_def by (intro exI[of _ 0]) simp
      show ?thesis
        by (rule exI[of _ "?c r # extra"])
           (use e push c False in \<open>auto intro: messageCand_shift\<close>)
    qed
  qed
qed

text \<open>
  A message whose identifier is not among those seen at the end of a scan has been probed,
  and was not a hit.
\<close>

lemma scanMessages_probed:
  "scanMessages probe mt msgs i st = Inr st' \<Longrightarrow> m \<in> set msgs \<Longrightarrow> msg_id (info m) \<notin> snd st' \<Longrightarrow>
   \<exists>sc. probe m = Inr (False, sc)"
proof (induction msgs arbitrary: i st)
  case Nil
  then show ?case by simp
next
  case (Cons a msgs)
  show ?case
  proof (cases "msg_id (info a) \<in> snd st")
    case True
    with Cons.prems(1) have run: "scanMessages probe mt msgs (i + 1) st = Inr st'" by simp
    from scanMessages_extra[OF run] have "snd st \<subseteq> snd st'" by auto
    with True Cons.prems(3) have "m \<noteq> a" by auto
    with Cons.prems(2) have "m \<in> set msgs" by simp
    from Cons.IH[OF run this Cons.prems(3)] show ?thesis .
  next
    case False
    with Cons.prems(1) obtain r where
      r: "probe a = Inr r"
         "scanMessages probe mt msgs (i + 1) (messageStep (fst r) (snd r) mt a i st) = Inr st'"
      by (auto split: sum.splits)
    let ?st1 = "messageStep (fst r) (snd r) mt a i st"
    from scanMessages_extra[OF r(2)] have grow: "snd ?st1 \<subseteq> snd st'" by auto
    show ?thesis
    proof (cases "m = a")
      case True
      have "\<not> fst r"
      proof
        assume "fst r"
        then have "msg_id (info a) \<in> snd ?st1" by (cases st) (simp add: messageStep_def)
        with grow True Cons.prems(3) show False by auto
      qed
      then have "r = (False, snd r)" by (cases r) simp
      with r(1) True show ?thesis by metis
    next
      case False
      with Cons.prems(2) have "m \<in> set msgs" by simp
      from Cons.IH[OF r(2) this Cons.prems(3)] show ?thesis .
    qed
  qed
qed

lemma findExactMatches_scan:
  "findExactMatches stringify messages searchString sums =
   (case scanMessages (exactProbe stringify searchString) Exact messages 0
           (scanSummaries (\<lambda>s. str_includes (summary s) searchString) (\<lambda>s. 100) Exact messages sums
              ([], {})) of
      Inl e \<Rightarrow> Inl e
    | Inr st \<Rightarrow> Inr (fst st))"
  by (simp add: findExactMatches_def exactMessageLoop_scan exactSummary_scan)

lemma findFuzzyMatches_scan:
  "findFuzzyMatches pr stringify messages searchString sums minSc =
   (case scanMessages (fuzzyProbe pr stringify searchString minSc) Fuzzy messages 0
           (scanSummaries (\<lambda>s. pr searchString (summary s) \<ge> minSc) (\<lambda>s. pr searchString (summary s))
              Fuzzy messages sums ([], {})) of
      Inl e \<Rightarrow> Inl e
    | Inr st \<Rightarrow> Inr (fst st))"
  by (simp add: findFuzzyMatches_def fuzzyMessageLoop_scan fuzzySummary_scan)

lemma findExactMatches_Inr:
  "findExactMatches stringify messages searchString sums = Inr em \<longleftrightarrow>
   (\<exists>seen. scanMessages (exactProbe stringify searchString) Exact messages 0
           (scanSummaries (\<lambda>s. str_includes (summary s) searchString) (\<lambda>s. 100) Exact messages sums
              ([], {})) = Inr (em, seen))"
  by (auto simp: findExactMatches_scan split: sum.splits)

lemma findFuzzyMatches_Inr:
  "findFuzzyMatches pr stringify messages searchString sums minSc = Inr fm \<longleftrightarrow>
   (\<exists>seen. scanMessages (fuzzyProbe pr stringify searchString minSc) Fuzzy messages 0
           (scanSummaries (\<lambda>s. pr searchString (summary s) \<ge> minSc) (\<lambda>s. pr searchString (summary s))
              Fuzzy messages sums ([], {})) = Inr (fm, seen))"
  by (auto simp: findFuzzyMatches_scan split: sum.splits)

text \<open>The candidates of a scan: those of the summaries, then those of the raw messages.\<close>

lemma scan_decomposition:
  assumes "scanMessages probe mt messages 0 (scanSummaries hitS scS mt messages sums ([], {})) =
           Inr (res, seen)"
  shows "\<exists>fromSummaries fromMessages.
           res = fromSummaries @ fromMessages \<and>
           (\<forall>c\<in>set fromSummaries. summaryCand hitS scS mt messages sums c) \<and>
           (\<forall>s\<in>set sums. hitS s \<and> \<not> orphaned messages s \<longrightarrow>
               anchorMessageId s \<in> set (map messageId fromSummaries)) \<and>
           (\<forall>c\<in>set fromMessages. messageCand probe mt messages 0 c \<and>
               messageId c \<notin> set (map messageId fromSummaries)) \<and>
           distinct (map messageId res)"
proof -
  let ?st1 = "scanSummaries hitS scS mt messages sums ([], {})"
  from scanSummaries_extra[of hitS scS mt messages sums "([], {})"] obtain e1 where
    e1: "fst ?st1 = e1" "snd ?st1 = set (map messageId e1)"
        "\<forall>c\<in>set e1. summaryCand hitS scS mt messages sums c"
    by auto
  from scanMessages_extra[OF assms] obtain e2 where
    e2: "res = fst ?st1 @ e2"
        "\<forall>c\<in>set e2. messageCand probe mt messages 0 c \<and> messageId c \<notin> snd ?st1"
    by auto
  have cov: "\<forall>s\<in>set sums. hitS s \<and> \<not> orphaned messages s \<longrightarrow> anchorMessageId s \<in> snd ?st1"
    by (auto intro: scanSummaries_covers)
  have "scanInv ?st1" by (intro scanSummaries_inv scanInv_init)
  from scanMessages_inv[OF this assms] have d: "distinct (map messageId res)"
    by (simp add: scanInv_def)
  show ?thesis
    by (rule exI[of _ e1], rule exI[of _ e2]) (use e1 e2 cov d in auto)
qed

lemma scan_empty_probed:
  assumes "scanMessages probe mt messages 0 (scanSummaries hitS scS mt messages sums ([], {})) =
           Inr ([], seen)"
    and "m \<in> set messages"
  shows "\<exists>sc. probe m = Inr (False, sc)"
proof -
  have "scanInv (scanSummaries hitS scS mt messages sums ([], {}))"
    by (intro scanSummaries_inv scanInv_init)
  from scanMessages_inv[OF this assms(1)] have "seen = {}" by (simp add: scanInv_def)
  with scanMessages_probed[OF assms(1) assms(2)] show ?thesis by simp
qed

text \<open>
  When the exact scan returns no candidate, it has extracted the content of every message,
  and no content includes the search string.
\<close>

lemma findExactMatches_Nil_extracts:
  assumes "findExactMatches stringify messages searchString sums = Inr []"
    and "m \<in> set messages"
  shows "\<exists>content. extractMessageContent stringify m = Inr content \<and>
           \<not> str_includes content searchString"
proof -
  from assms(1) obtain seen where
    "scanMessages (exactProbe stringify searchString) Exact messages 0
           (scanSummaries (\<lambda>s. str_includes (summary s) searchString) (\<lambda>s. 100) Exact messages sums
              ([], {})) = Inr ([], seen)"
    by (auto simp: findExactMatches_Inr)
  from scan_empty_probed[OF this assms(2)] obtain sc where
    "exactProbe stringify searchString m = Inr (False, sc)" by blast
  then show ?thesis by (auto simp: exactProbe_def split: sum.splits)
qed

text \<open>The fuzzy scan does not throw when the content of every message can be extracted.\<close>

lemma findFuzzyMatches_total:
  assumes "\<forall>m\<in>set messages. \<exists>content. extractMessageContent stringify m = Inr content"
  shows "\<exists>fm. findFuzzyMatches pr stringify messages searchString sums minSc = Inr fm"
proof -
  from assms have "\<forall>m\<in>set messages. \<exists>r. fuzzyProbe pr stringify searchString minSc m = Inr r"
    by (auto simp: fuzzyProbe_def)
  from scanMessages_total[OF this, of Fuzzy 0
      "scanSummaries (\<lambda>s. pr searchString (summary s) \<ge> minSc) (\<lambda>s. pr searchString (summary s))
         Fuzzy messages sums ([], {})"]
  obtain st' where "scanMessages (fuzzyProbe pr stringify searchString minSc) Fuzzy messages 0
      (scanSummaries (\<lambda>s. pr searchString (summary s) \<ge> minSc) (\<lambda>s. pr searchString (summary s))
         Fuzzy messages sums ([], {})) = Inr st'" by blast
  then show ?thesis by (simp add: findFuzzyMatches_scan)
qed

lemma findFuzzyMatches_after_exact:
  assumes "findExactMatches stringify messages searchString sums = Inr []"
  shows "\<exists>fm. findFuzzyMatches pr stringify messages searchString sums' minSc = Inr fm"
  using findExactMatches_Nil_extracts[OF assms] by (intro findFuzzyMatches_total) blast

lemma sortByScoreDesc_props:
  "mset (sortByScoreDesc ms) = mset ms"
  "sorted_wrt (\<lambda>a b. score b \<le> score a) (sortByScoreDesc ms)"
proof -
  show "mset (sortByScoreDesc ms) = mset ms" by (simp add: sortByScoreDesc_def)
  have "sorted (map (\<lambda>m. - score m) (sortByScoreDesc ms))"
    unfolding sortByScoreDesc_def by (rule sorted_sort_key)
  then show "sorted_wrt (\<lambda>a b. score b \<le> score a) (sortByScoreDesc ms)"
    by (simp add: sorted_wrt_map)
qed

lemma sortByScoreDesc_Nil: "sortByScoreDesc ms = [] \<longleftrightarrow> ms = []"
  by (metis mset_zero_iff sortByScoreDesc_props(1))

lemma two_or_more: "2 \<le> length xs \<longleftrightarrow> (\<exists>a b rest. xs = a # b # rest)"
proof (cases xs)
  case Nil
  then show ?thesis by simp
next
  case (Cons a ys)
  then show ?thesis by (cases ys) simp_all
qed


lemma findExactMatches_distinct:
  "findExactMatches stringify messages searchString sums = Inr em \<Longrightarrow> distinct (map messageId em)"
  unfolding findExactMatches_Inr using scan_decomposition by blast

lemma findFuzzyMatches_distinct:
  "findFuzzyMatches pr stringify messages searchString sums minSc = Inr fm \<Longrightarrow>
   distinct (map messageId fm)"
  unfolding findFuzzyMatches_Inr using scan_decomposition by blast

section \<open>The claims about the match engine\<close>

text \<open>
  Claim C1. Resolution returns one locator or fails. When the exact phase produces
  exactly one candidate, \<open>findStringInMessages\<close> returns the message identifier and the
  index of that candidate, and logs nothing. When the exact phase produces two or more
  candidates, which are candidates for distinct message identifiers, it fails with the
  ambiguity error of the exact phase and picks none of them. When the exact phase throws
  (the scan has reached a message with a null or undefined part), resolution throws the
  same error and returns no locator.
\<close>

theorem exact_phase_resolves:
  "(findExactMatches stringify messages searchString (summariesOrDefault sumsArg) = Inr [c] \<longrightarrow>
      findStringInMessages partial_ratio stringify messages searchString sumsArg stringType cfgArg =
        Inr (\<lparr>messageId = messageId c, messageIndex = messageIndex c\<rparr>, []))
   \<and> (findExactMatches stringify messages searchString (summariesOrDefault sumsArg) = Inr em \<and>
       2 \<le> length em \<longrightarrow>
      findStringInMessages partial_ratio stringify messages searchString sumsArg stringType cfgArg =
        Inl (MultipleExactMatches stringType) \<and>
      isAmbiguousMatch (MultipleExactMatches stringType) \<and>
      distinct (map messageId em))
   \<and> (findExactMatches stringify messages searchString (summariesOrDefault sumsArg) = Inl e \<longrightarrow>
      findStringInMessages partial_ratio stringify messages searchString sumsArg stringType cfgArg =
        Inl e)"
proof (intro conjI impI)
  assume "findExactMatches stringify messages searchString (summariesOrDefault sumsArg) = Inr [c]"
  then show "findStringInMessages partial_ratio stringify messages searchString sumsArg stringType cfgArg =
        Inr (\<lparr>messageId = messageId c, messageIndex = messageIndex c\<rparr>, [])"
    by (simp add: findStringInMessages_def toLocator_def)
next
  assume h: "findExactMatches stringify messages searchString (summariesOrDefault sumsArg) = Inr em \<and>
       2 \<le> length em"
  then have "\<exists>a b rest. em = a # b # rest"
    by (simp only: two_or_more)
  then obtain a b rest where "em = a # b # rest"
    by (elim exE)
  with h show "findStringInMessages partial_ratio stringify messages searchString sumsArg stringType cfgArg =
        Inl (MultipleExactMatches stringType)"
    by (simp add: findStringInMessages_def)
  from h show "distinct (map messageId em)"
    by (intro findExactMatches_distinct[of stringify messages searchString "summariesOrDefault sumsArg"]) simp
  show "isAmbiguousMatch (MultipleExactMatches stringType)" by simp
next
  assume "findExactMatches stringify messages searchString (summariesOrDefault sumsArg) = Inl e"
  then show "findStringInMessages partial_ratio stringify messages searchString sumsArg stringType cfgArg =
        Inl e"
    by (simp add: findStringInMessages_def)
qed

theorem exact_phase_resolves_witness:
  "findExactMatches exStringify exMessages ''alpha'' (summariesOrDefault None) =
     Inr [\<lparr>messageId = ''m1'', messageIndex = 0, score = 100, matchType = Exact\<rparr>]
   \<and> findStringInMessages exRatio exStringify exMessages ''alpha'' None StartString None =
     Inr (\<lparr>messageId = ''m1'', messageIndex = 0\<rparr>, [])
   \<and> findExactMatches exStringify exMessages ''beta'' (summariesOrDefault None) =
     Inr [\<lparr>messageId = ''m1'', messageIndex = 0, score = 100, matchType = Exact\<rparr>,
          \<lparr>messageId = ''m2'', messageIndex = 1, score = 100, matchType = Exact\<rparr>]
   \<and> findStringInMessages exRatio exStringify exMessages ''beta'' None StartString None =
     Inl (MultipleExactMatches StartString)
   \<and> findExactMatches exStringify [exNullPart] ''alpha'' (summariesOrDefault None) = Inl TypeError
   \<and> findStringInMessages exRatio exStringify [exNullPart] ''alpha'' None StartString None =
     Inl TypeError"
proof -
  have h1: "findExactMatches exStringify exMessages ''alpha'' (summariesOrDefault None) =
     Inr [\<lparr>messageId = ''m1'', messageIndex = 0, score = 100, matchType = Exact\<rparr>]"
    by code_simp
  have h2: "findExactMatches exStringify exMessages ''beta'' (summariesOrDefault None) =
     Inr [\<lparr>messageId = ''m1'', messageIndex = 0, score = 100, matchType = Exact\<rparr>,
          \<lparr>messageId = ''m2'', messageIndex = 1, score = 100, matchType = Exact\<rparr>]"
    by code_simp
  have h3: "findExactMatches exStringify [exNullPart] ''alpha'' (summariesOrDefault None) = Inl TypeError"
    by code_simp
  from h1
    exact_phase_resolves[where stringify = exStringify and messages = exMessages
      and searchString = "''alpha''" and sumsArg = None
      and c = "\<lparr>messageId = ''m1'', messageIndex = 0, score = 100, matchType = Exact\<rparr>"
      and partial_ratio = exRatio and stringType = StartString and cfgArg = None]
  have r1: "findStringInMessages exRatio exStringify exMessages ''alpha'' None StartString None =
     Inr (\<lparr>messageId = ''m1'', messageIndex = 0\<rparr>, [])"
    by simp
  from h2
    exact_phase_resolves[where stringify = exStringify and messages = exMessages
      and searchString = "''beta''" and sumsArg = None
      and em = "[\<lparr>messageId = ''m1'', messageIndex = 0, score = 100, matchType = Exact\<rparr>,
        \<lparr>messageId = ''m2'', messageIndex = 1, score = 100, matchType = Exact\<rparr>]"
      and partial_ratio = exRatio and stringType = StartString and cfgArg = None]
  have r2: "findStringInMessages exRatio exStringify exMessages ''beta'' None StartString None =
     Inl (MultipleExactMatches StartString)"
    by simp
  from h3 exact_phase_resolves[where stringify = exStringify and messages = "[exNullPart]"
      and searchString = "''alpha''" and sumsArg = None and e = TypeError
      and partial_ratio = exRatio and stringType = StartString and cfgArg = None]
  have r3: "findStringInMessages exRatio exStringify [exNullPart] ''alpha'' None StartString None =
     Inl TypeError"
    by simp
  from h1 r1 h2 r2 h3 r3 show ?thesis by (intro conjI)
qed

lemma findStringInMessages_fuzzy:
  "findExactMatches stringify messages searchString (summariesOrDefault sumsArg) = Inr [] \<Longrightarrow>
   findFuzzyMatches partial_ratio stringify messages searchString (summariesOrDefault sumsArg)
        (minScore (configOrDefault cfgArg)) = Inr fm \<Longrightarrow>
   findStringInMessages partial_ratio stringify messages searchString sumsArg stringType cfgArg =
   fuzzyPhase stringType (configOrDefault cfgArg) fm"
  by (simp add: findStringInMessages_def Let_def)

text \<open>
  Claim C3. The fuzzy phase is entered when there is no exact candidate. The fuzzy
  candidates are sorted by score descending, so that the first one has a best score and the
  second one a best score among the others. When there is a second candidate and the best
  score minus the second-best score is less than \<open>minGap\<close>, resolution fails with the
  ambiguity error of the fuzzy phase, also when the best score is the score of one
  candidate only. In every other case the best candidate is returned, and its score is
  logged. The default of \<open>minGap\<close> is 15.
\<close>

theorem fuzzy_gap_required:
  assumes exact: "findExactMatches stringify messages searchString (summariesOrDefault sumsArg) = Inr []"
    and fm: "findFuzzyMatches partial_ratio stringify messages searchString (summariesOrDefault sumsArg)
               (minScore (configOrDefault cfgArg)) = Inr fm"
    and ne: "fm \<noteq> []"
    and sorted: "sortByScoreDesc fm = best # rest"
  shows "mset (best # rest) = mset fm \<and>
         (\<forall>m\<in>set rest. score m \<le> score best) \<and>
         sorted_wrt (\<lambda>a b. score b \<le> score a) rest \<and>
         (case rest of
            [] \<Rightarrow>
              findStringInMessages partial_ratio stringify messages searchString sumsArg stringType cfgArg =
                Inr (\<lparr>messageId = messageId best, messageIndex = messageIndex best\<rparr>,
                     [FuzzyMatched stringType (score best) (messageIndex best)])
          | secondBest # others \<Rightarrow>
              findStringInMessages partial_ratio stringify messages searchString sumsArg stringType cfgArg =
                (if score best - score secondBest < minGap (configOrDefault cfgArg)
                 then Inl (AmbiguousFuzzyMatch stringType (score best) (score secondBest))
                 else Inr (\<lparr>messageId = messageId best, messageIndex = messageIndex best\<rparr>,
                           [FuzzyMatched stringType (score best) (messageIndex best)]))) \<and>
         isAmbiguousMatch (AmbiguousFuzzyMatch stringType a b) \<and>
         minGap (configOrDefault None) = 15"
proof -
  have m: "mset (best # rest) = mset fm"
    using sortByScoreDesc_props(1)[of fm] sorted by simp
  have s: "sorted_wrt (\<lambda>a b. score b \<le> score a) (best # rest)"
    using sortByScoreDesc_props(2)[of fm] sorted by simp
  have r: "findStringInMessages partial_ratio stringify messages searchString sumsArg stringType cfgArg =
           fuzzyPhase stringType (configOrDefault cfgArg) fm"
    by (rule findStringInMessages_fuzzy[OF exact fm])
  have c: "(case rest of
            [] \<Rightarrow>
              fuzzyPhase stringType (configOrDefault cfgArg) fm =
                Inr (\<lparr>messageId = messageId best, messageIndex = messageIndex best\<rparr>,
                     [FuzzyMatched stringType (score best) (messageIndex best)])
          | secondBest # others \<Rightarrow>
              fuzzyPhase stringType (configOrDefault cfgArg) fm =
                (if score best - score secondBest < minGap (configOrDefault cfgArg)
                 then Inl (AmbiguousFuzzyMatch stringType (score best) (score secondBest))
                 else Inr (\<lparr>messageId = messageId best, messageIndex = messageIndex best\<rparr>,
                           [FuzzyMatched stringType (score best) (messageIndex best)])))"
    by (simp add: fuzzyPhase_def sorted toLocator_def split: list.split)
  have d: "minGap (configOrDefault None) = 15"
    by (simp add: configOrDefault_def DEFAULT_FUZZY_CONFIG_def)
  from m s c d show ?thesis unfolding r by simp
qed

theorem fuzzy_gap_required_witness:
  "findExactMatches exStringify exMessages ''alpah'' (summariesOrDefault None) = Inr []
   \<and> findFuzzyMatches exRatio exStringify exMessages ''alpah'' (summariesOrDefault None) 85 =
       Inr [\<lparr>messageId = ''m1'', messageIndex = 0, score = 95, matchType = Fuzzy\<rparr>,
            \<lparr>messageId = ''m2'', messageIndex = 1, score = 90, matchType = Fuzzy\<rparr>]
   \<and> sortByScoreDesc
         [\<lparr>messageId = ''m1'', messageIndex = 0, score = 95, matchType = Fuzzy\<rparr>,
          \<lparr>messageId = ''m2'', messageIndex = 1, score = 90, matchType = Fuzzy\<rparr>] =
       [\<lparr>messageId = ''m1'', messageIndex = 0, score = 95, matchType = Fuzzy\<rparr>,
        \<lparr>messageId = ''m2'', messageIndex = 1, score = 90, matchType = Fuzzy\<rparr>]
   \<and> findStringInMessages exRatio exStringify exMessages ''alpah'' None StartString None =
       Inl (AmbiguousFuzzyMatch StartString 95 90)
   \<and> findStringInMessages exRatio exStringify exMessages ''alpah'' None StartString
         (Some \<lparr>minScore = 85, minGap = 5\<rparr>) =
       Inr (\<lparr>messageId = ''m1'', messageIndex = 0\<rparr>, [FuzzyMatched StartString 95 0])"
proof -
  let ?c1 = "\<lparr>messageId = ''m1'', messageIndex = 0, score = 95, matchType = Fuzzy\<rparr>"
  let ?c2 = "\<lparr>messageId = ''m2'', messageIndex = 1, score = 90, matchType = Fuzzy\<rparr>"
  have e: "findExactMatches exStringify exMessages ''alpah'' (summariesOrDefault None) = Inr []"
    by code_simp
  have f: "findFuzzyMatches exRatio exStringify exMessages ''alpah'' (summariesOrDefault None) 85 =
      Inr [?c1, ?c2]"
    by code_simp
  have f1: "findFuzzyMatches exRatio exStringify exMessages ''alpah'' (summariesOrDefault None)
              (minScore (configOrDefault None)) = Inr [?c1, ?c2]"
    using f by (simp add: configOrDefault_def DEFAULT_FUZZY_CONFIG_def)
  have f2: "findFuzzyMatches exRatio exStringify exMessages ''alpah'' (summariesOrDefault None)
              (minScore (configOrDefault (Some \<lparr>minScore = 85, minGap = 5\<rparr>))) = Inr [?c1, ?c2]"
    using f by (simp add: configOrDefault_def)
  have s: "sortByScoreDesc [?c1, ?c2] = [?c1, ?c2]"
    by (simp add: sortByScoreDesc_def)
  have n: "[?c1, ?c2] \<noteq> []" by simp
  from fuzzy_gap_required[OF e f1 n s, of StartString]
  have r1: "findStringInMessages exRatio exStringify exMessages ''alpah'' None StartString None =
       Inl (AmbiguousFuzzyMatch StartString 95 90)"
    by (simp add: configOrDefault_def DEFAULT_FUZZY_CONFIG_def)
  from fuzzy_gap_required[OF e f2 n s, of StartString]
  have r2: "findStringInMessages exRatio exStringify exMessages ''alpah'' None StartString
         (Some \<lparr>minScore = 85, minGap = 5\<rparr>) =
       Inr (\<lparr>messageId = ''m1'', messageIndex = 0\<rparr>, [FuzzyMatched StartString 95 0])"
    by (simp add: configOrDefault_def)
  from e f s r1 r2 show ?thesis by (intro conjI)
qed

lemma findExactMatches_orphans:
  "findExactMatches stringify messages searchString (filter (\<lambda>s. \<not> orphaned messages s) sums) =
   findExactMatches stringify messages searchString sums"
  by (simp add: findExactMatches_scan scanSummaries_filter)

lemma findFuzzyMatches_orphans:
  "findFuzzyMatches pr stringify messages searchString (filter (\<lambda>s. \<not> orphaned messages s) sums) minSc =
   findFuzzyMatches pr stringify messages searchString sums minSc"
  by (simp add: findFuzzyMatches_scan scanSummaries_filter)

lemma findStringInMessages_orphans:
  "findStringInMessages pr stringify messages searchString
     (Some (filter (\<lambda>s. \<not> orphaned messages s) sums)) stringType cfgArg =
   findStringInMessages pr stringify messages searchString (Some sums) stringType cfgArg"
  by (simp add: findStringInMessages_def summariesOrDefault_def findExactMatches_orphans
        findFuzzyMatches_orphans Let_def split: sum.split list.split)

lemma filter_all_orphaned:
  "\<forall>s\<in>set sums. orphaned messages s \<Longrightarrow> filter (\<lambda>s. \<not> orphaned messages s) sums = []"
  by (induction sums) simp_all

lemma findExactMatches_no_hit:
  assumes "\<forall>s\<in>set sums. orphaned messages s \<or> \<not> str_includes (summary s) searchString"
    and "\<forall>m\<in>set messages. \<exists>content. extractMessageContent stringify m = Inr content \<and>
           \<not> str_includes content searchString"
  shows "findExactMatches stringify messages searchString sums = Inr []"
proof -
  from assms(2) have "\<forall>m\<in>set messages. \<exists>sc. exactProbe stringify searchString m = Inr (False, sc)"
    by (auto simp: exactProbe_def)
  from scanMessages_miss[OF this] show ?thesis
    by (simp add: findExactMatches_scan scanSummaries_miss[OF assms(1)])
qed

lemma findFuzzyMatches_no_hit:
  assumes "\<forall>s\<in>set sums. orphaned messages s \<or> pr searchString (summary s) < minSc"
    and "\<forall>m\<in>set messages. \<exists>content. extractMessageContent stringify m = Inr content \<and>
           pr searchString content < minSc"
  shows "findFuzzyMatches pr stringify messages searchString sums minSc = Inr []"
proof -
  from assms(1) have a: "\<forall>s\<in>set sums. orphaned messages s \<or> \<not> minSc \<le> pr searchString (summary s)"
    by (auto simp: not_le)
  from assms(2) have "\<forall>m\<in>set messages. \<exists>sc. fuzzyProbe pr stringify searchString minSc m = Inr (False, sc)"
    by (fastforce simp: fuzzyProbe_def not_le)
  from scanMessages_miss[OF this] show ?thesis
    by (simp add: findFuzzyMatches_scan scanSummaries_miss[OF a])
qed

lemma fuzzyPhase_Nil: "fuzzyPhase stringType cfg [] = Inl (NotFound stringType)"
  by (simp add: fuzzyPhase_def sortByScoreDesc_def)

text \<open>
  Claim C9. A compress summary whose anchor is the identifier of no message of the list
  (an orphaned summary) contributes no candidate, in the exact scan and in the fuzzy scan:
  both scans give the same result with the orphaned summaries removed. When every
  summary is orphaned, resolution is the resolution over the raw messages alone. When the
  search string is found only in orphaned summaries and no raw message matches it (the
  content of every raw message is extracted, and it neither contains the search string nor
  has a score that reaches \<open>minScore\<close>), resolution fails with the not-found error.
\<close>

theorem orphaned_summary_no_candidate:
  "findExactMatches stringify messages searchString (filter (\<lambda>s. \<not> orphaned messages s) sums) =
     findExactMatches stringify messages searchString sums
   \<and> findFuzzyMatches partial_ratio stringify messages searchString
       (filter (\<lambda>s. \<not> orphaned messages s) sums) minSc =
     findFuzzyMatches partial_ratio stringify messages searchString sums minSc
   \<and> ((\<forall>s\<in>set sums. orphaned messages s) \<longrightarrow>
        findExactMatches stringify messages searchString sums =
          findExactMatches stringify messages searchString [] \<and>
        findStringInMessages partial_ratio stringify messages searchString (Some sums) stringType cfgArg =
          findStringInMessages partial_ratio stringify messages searchString (Some []) stringType cfgArg)
   \<and> ((\<forall>s\<in>set sums. orphaned messages s \<or>
          (\<not> str_includes (summary s) searchString \<and>
           partial_ratio searchString (summary s) < minScore (configOrDefault cfgArg))) \<and>
       (\<forall>m\<in>set messages. \<exists>content.
          extractMessageContent stringify m = Inr content \<and>
          \<not> str_includes content searchString \<and>
          partial_ratio searchString content < minScore (configOrDefault cfgArg)) \<longrightarrow>
        findStringInMessages partial_ratio stringify messages searchString (Some sums) stringType cfgArg =
          Inl (NotFound stringType))"
proof (intro conjI impI)
  show "findExactMatches stringify messages searchString (filter (\<lambda>s. \<not> orphaned messages s) sums) =
     findExactMatches stringify messages searchString sums"
    by (rule findExactMatches_orphans)
  show "findFuzzyMatches partial_ratio stringify messages searchString
       (filter (\<lambda>s. \<not> orphaned messages s) sums) minSc =
     findFuzzyMatches partial_ratio stringify messages searchString sums minSc"
    by (rule findFuzzyMatches_orphans)
next
  assume a: "\<forall>s\<in>set sums. orphaned messages s"
  show "findExactMatches stringify messages searchString sums =
          findExactMatches stringify messages searchString []"
    using findExactMatches_orphans[of stringify messages searchString sums]
    by (simp add: filter_all_orphaned[OF a])
  show "findStringInMessages partial_ratio stringify messages searchString (Some sums) stringType cfgArg =
          findStringInMessages partial_ratio stringify messages searchString (Some []) stringType cfgArg"
    using findStringInMessages_orphans[of partial_ratio stringify messages searchString sums stringType cfgArg]
    by (simp add: filter_all_orphaned[OF a])
next
  assume h: "(\<forall>s\<in>set sums. orphaned messages s \<or>
          (\<not> str_includes (summary s) searchString \<and>
           partial_ratio searchString (summary s) < minScore (configOrDefault cfgArg))) \<and>
       (\<forall>m\<in>set messages. \<exists>content.
          extractMessageContent stringify m = Inr content \<and>
          \<not> str_includes content searchString \<and>
          partial_ratio searchString content < minScore (configOrDefault cfgArg))"
  have e: "findExactMatches stringify messages searchString (summariesOrDefault (Some sums)) = Inr []"
    using h by (intro findExactMatches_no_hit) (auto simp: summariesOrDefault_def)
  have f: "findFuzzyMatches partial_ratio stringify messages searchString (summariesOrDefault (Some sums))
             (minScore (configOrDefault cfgArg)) = Inr []"
    using h by (intro findFuzzyMatches_no_hit) (auto simp: summariesOrDefault_def)
  show "findStringInMessages partial_ratio stringify messages searchString (Some sums) stringType cfgArg =
          Inl (NotFound stringType)"
    by (simp add: findStringInMessages_fuzzy[OF e f] fuzzyPhase_Nil)
qed

theorem orphaned_summary_no_candidate_witness:
  "orphaned exMessages exOrphan
   \<and> str_includes (summary exOrphan) ''zzz''
   \<and> extractMessageContent exStringify (exMessages ! 0) = Inr '' alpha beta''
   \<and> extractMessageContent exStringify (exMessages ! 1) = Inr '' gamma beta''
   \<and> \<not> str_includes '' alpha beta'' ''zzz''
   \<and> \<not> str_includes '' gamma beta'' ''zzz''
   \<and> exRatio ''zzz'' '' alpha beta'' < 96
   \<and> exRatio ''zzz'' '' gamma beta'' < 96
   \<and> findExactMatches exStringify exMessages ''zzz'' [exOrphan] = Inr []
   \<and> findStringInMessages exRatio exStringify exMessages ''zzz'' (Some [exOrphan]) EndString
        (Some \<lparr>minScore = 96, minGap = 15\<rparr>) = Inl (NotFound EndString)"
proof -
  have o: "orphaned exMessages exOrphan" by code_simp
  have i: "str_includes (summary exOrphan) ''zzz''" by code_simp
  have x0: "extractMessageContent exStringify (exMessages ! 0) = Inr '' alpha beta''" by code_simp
  have x1: "extractMessageContent exStringify (exMessages ! 1) = Inr '' gamma beta''" by code_simp
  have m0: "\<not> str_includes '' alpha beta'' ''zzz''" by code_simp
  have m1: "\<not> str_includes '' gamma beta'' ''zzz''" by code_simp
  have r0: "exRatio ''zzz'' '' alpha beta'' < 96" by code_simp
  have r1: "exRatio ''zzz'' '' gamma beta'' < 96" by code_simp
  have ms: "set exMessages = {exMessages ! 0, exMessages ! 1}" by (simp add: exMessages_def)
  have e0: "findExactMatches exStringify exMessages ''zzz'' [] = Inr []" by code_simp
  note t = orphaned_summary_no_candidate[of exStringify exMessages "''zzz''" "[exOrphan]" exRatio 96
      EndString "Some \<lparr>minScore = 96, minGap = 15\<rparr>"]
  have ho: "\<forall>s\<in>set [exOrphan]. orphaned exMessages s" using o by simp
  then have ho': "\<forall>s\<in>set [exOrphan]. orphaned exMessages s \<or>
          (\<not> str_includes (summary s) ''zzz'' \<and>
           exRatio ''zzz'' (summary s) < minScore (configOrDefault (Some \<lparr>minScore = 96, minGap = 15\<rparr>)))"
    by simp
  have hm: "\<forall>m\<in>set exMessages. \<exists>content.
          extractMessageContent exStringify m = Inr content \<and>
          \<not> str_includes content ''zzz'' \<and>
          exRatio ''zzz'' content
            < minScore (configOrDefault (Some \<lparr>minScore = 96, minGap = 15\<rparr>))"
    using x0 x1 m0 m1 r0 r1 by (simp add: ms configOrDefault_def)
  from t ho have "findExactMatches exStringify exMessages ''zzz'' [exOrphan] =
      findExactMatches exStringify exMessages ''zzz'' []" by blast
  with e0 have e: "findExactMatches exStringify exMessages ''zzz'' [exOrphan] = Inr []" by simp
  from t ho' hm
  have r: "findStringInMessages exRatio exStringify exMessages ''zzz'' (Some [exOrphan]) EndString
        (Some \<lparr>minScore = 96, minGap = 15\<rparr>) = Inl (NotFound EndString)"
    by blast
  from o i x0 x1 m0 m1 r0 r1 e r show ?thesis by (intro conjI)
qed

lemma exactProbe_hit:
  "exactProbe stringify searchString m = Inr (True, sc) \<longleftrightarrow>
   (\<exists>content. extractMessageContent stringify m = Inr content \<and>
      str_includes content searchString \<and> sc = 100)"
  by (auto simp: exactProbe_def split: sum.splits)

lemma fuzzyProbe_hit:
  "fuzzyProbe pr stringify searchString minSc m = Inr (True, sc) \<longleftrightarrow>
   (\<exists>content. extractMessageContent stringify m = Inr content \<and>
      minSc \<le> pr searchString content \<and> sc = pr searchString content)"
  by (auto simp: fuzzyProbe_def split: sum.splits)

lemma findExactMatches_total:
  assumes "\<forall>m\<in>set messages. \<exists>content. extractMessageContent stringify m = Inr content"
  shows "\<exists>em. findExactMatches stringify messages searchString sums = Inr em"
proof -
  from assms have "\<forall>m\<in>set messages. \<exists>r. exactProbe stringify searchString m = Inr r"
    by (auto simp: exactProbe_def)
  from scanMessages_total[OF this, of Exact 0
      "scanSummaries (\<lambda>s. str_includes (summary s) searchString) (\<lambda>s. 100) Exact messages sums ([], {})"]
  obtain st' where "scanMessages (exactProbe stringify searchString) Exact messages 0
      (scanSummaries (\<lambda>s. str_includes (summary s) searchString) (\<lambda>s. 100) Exact messages sums
         ([], {})) = Inr st'" by blast
  then show ?thesis by (simp add: findExactMatches_scan)
qed

lemma findExactMatches_decomposition:
  assumes "findExactMatches stringify messages searchString sums = Inr em"
  shows "\<exists>fromSummaries fromMessages.
     em = fromSummaries @ fromMessages \<and>
     (\<forall>c\<in>set fromSummaries.
        summaryCand (\<lambda>s. str_includes (summary s) searchString) (\<lambda>s. 100) Exact messages sums c) \<and>
     (\<forall>s\<in>set sums. str_includes (summary s) searchString \<and> \<not> orphaned messages s \<longrightarrow>
        anchorMessageId s \<in> set (map messageId fromSummaries)) \<and>
     (\<forall>c\<in>set fromMessages.
        messageCand (exactProbe stringify searchString) Exact messages 0 c \<and>
        messageId c \<notin> set (map messageId fromSummaries)) \<and>
     distinct (map messageId em)"
proof -
  from assms obtain seen where
    "scanMessages (exactProbe stringify searchString) Exact messages 0
           (scanSummaries (\<lambda>s. str_includes (summary s) searchString) (\<lambda>s. 100) Exact messages sums
              ([], {})) = Inr (em, seen)"
    by (auto simp: findExactMatches_Inr)
  then show ?thesis by (rule scan_decomposition)
qed

lemma findFuzzyMatches_decomposition:
  assumes "findFuzzyMatches pr stringify messages searchString sums minSc = Inr fm"
  shows "\<exists>fromSummaries fromMessages.
     fm = fromSummaries @ fromMessages \<and>
     (\<forall>c\<in>set fromSummaries.
        summaryCand (\<lambda>s. minSc \<le> pr searchString (summary s)) (\<lambda>s. pr searchString (summary s))
          Fuzzy messages sums c) \<and>
     (\<forall>s\<in>set sums. minSc \<le> pr searchString (summary s) \<and> \<not> orphaned messages s \<longrightarrow>
        anchorMessageId s \<in> set (map messageId fromSummaries)) \<and>
     (\<forall>c\<in>set fromMessages.
        messageCand (fuzzyProbe pr stringify searchString minSc) Fuzzy messages 0 c \<and>
        messageId c \<notin> set (map messageId fromSummaries)) \<and>
     distinct (map messageId fm)"
proof -
  from assms obtain seen where
    "scanMessages (fuzzyProbe pr stringify searchString minSc) Fuzzy messages 0
           (scanSummaries (\<lambda>s. pr searchString (summary s) \<ge> minSc) (\<lambda>s. pr searchString (summary s))
              Fuzzy messages sums ([], {})) = Inr (fm, seen)"
    by (auto simp: findFuzzyMatches_Inr)
  then show ?thesis by (rule scan_decomposition)
qed

text \<open>
  Claim C5, as amended. The exact scan goes over the compress summaries first and over the
  raw messages after them: its candidates are those of the summaries followed by those of
  the raw messages. A summary whose text contains the search string and whose anchor is
  the identifier of a message of the list has a candidate at its anchor, with the index of
  the first message that carries this identifier. A raw message whose identifier a
  summary has claimed is skipped: no candidate of the raw messages has such an
  identifier. No two candidates have the same message identifier. The scan returns its
  candidates whenever the content of every message can be extracted.
\<close>

theorem exact_summaries_first:
  "((\<forall>m\<in>set messages. \<exists>content. extractMessageContent stringify m = Inr content) \<longrightarrow>
      (\<exists>em. findExactMatches stringify messages searchString sums = Inr em))
   \<and> (\<forall>s\<in>set sums. \<not> orphaned messages s \<longrightarrow>
        (\<exists>k<length messages.
           findIndex (\<lambda>m. msg_id (info m) = anchorMessageId s) messages = int k \<and>
           msg_id (info (messages ! k)) = anchorMessageId s \<and>
           (\<forall>j<k. msg_id (info (messages ! j)) \<noteq> anchorMessageId s)))
   \<and> (findExactMatches stringify messages searchString sums = Inr em \<longrightarrow>
   (\<exists>fromSummaries fromMessages.
     em = fromSummaries @ fromMessages \<and>
     (\<forall>c\<in>set fromSummaries. \<exists>s\<in>set sums.
        str_includes (summary s) searchString \<and> \<not> orphaned messages s \<and>
        messageId c = anchorMessageId s \<and>
        messageIndex c = findIndex (\<lambda>m. msg_id (info m) = anchorMessageId s) messages \<and>
        score c = 100 \<and> matchType c = Exact) \<and>
     (\<forall>s\<in>set sums. str_includes (summary s) searchString \<and> \<not> orphaned messages s \<longrightarrow>
        anchorMessageId s \<in> set (map messageId fromSummaries)) \<and>
     (\<forall>c\<in>set fromMessages.
        messageId c \<notin> set (map messageId fromSummaries) \<and>
        (\<exists>k<length messages. \<exists>content.
           extractMessageContent stringify (messages ! k) = Inr content \<and>
           str_includes content searchString \<and>
           messageId c = msg_id (info (messages ! k)) \<and> messageIndex c = int k \<and>
           score c = 100 \<and> matchType c = Exact)) \<and>
     distinct (map messageId em)))"
proof (intro conjI impI)
  assume "\<forall>m\<in>set messages. \<exists>content. extractMessageContent stringify m = Inr content"
  then show "\<exists>em. findExactMatches stringify messages searchString sums = Inr em"
    by (rule findExactMatches_total)
next
  show "\<forall>s\<in>set sums. \<not> orphaned messages s \<longrightarrow>
        (\<exists>k<length messages.
           findIndex (\<lambda>m. msg_id (info m) = anchorMessageId s) messages = int k \<and>
           msg_id (info (messages ! k)) = anchorMessageId s \<and>
           (\<forall>j<k. msg_id (info (messages ! j)) \<noteq> anchorMessageId s))"
    using findIndex_anchor by blast
next
  assume "findExactMatches stringify messages searchString sums = Inr em"
  from findExactMatches_decomposition[OF this]
  obtain e1 e2 where
    d: "em = e1 @ e2"
    and c1: "\<forall>c\<in>set e1.
        summaryCand (\<lambda>s. str_includes (summary s) searchString) (\<lambda>s. 100) Exact messages sums c"
    and cov: "\<forall>s\<in>set sums. str_includes (summary s) searchString \<and> \<not> orphaned messages s \<longrightarrow>
        anchorMessageId s \<in> set (map messageId e1)"
    and c2: "\<forall>c\<in>set e2.
        messageCand (exactProbe stringify searchString) Exact messages 0 c \<and>
        messageId c \<notin> set (map messageId e1)"
    and dist: "distinct (map messageId em)"
    by blast
  from c1 have c1': "\<forall>c\<in>set e1. \<exists>s\<in>set sums.
        str_includes (summary s) searchString \<and> \<not> orphaned messages s \<and>
        messageId c = anchorMessageId s \<and>
        messageIndex c = findIndex (\<lambda>m. msg_id (info m) = anchorMessageId s) messages \<and>
        score c = 100 \<and> matchType c = Exact"
    by (simp add: summaryCand_def)
  have c2': "\<forall>c\<in>set e2.
        messageId c \<notin> set (map messageId e1) \<and>
        (\<exists>k<length messages. \<exists>content.
           extractMessageContent stringify (messages ! k) = Inr content \<and>
           str_includes content searchString \<and>
           messageId c = msg_id (info (messages ! k)) \<and> messageIndex c = int k \<and>
           score c = 100 \<and> matchType c = Exact)"
  proof
    fix c assume "c \<in> set e2"
    with c2 have m: "messageCand (exactProbe stringify searchString) Exact messages 0 c"
      and n: "messageId c \<notin> set (map messageId e1)" by auto
    from m obtain k where k: "k < length messages"
      "exactProbe stringify searchString (messages ! k) = Inr (True, score c)"
      "messageId c = msg_id (info (messages ! k))" "messageIndex c = int k" "matchType c = Exact"
      by (auto simp: messageCand_def)
    from k(2) obtain content where
      "extractMessageContent stringify (messages ! k) = Inr content"
      "str_includes content searchString" "score c = 100"
      by (auto simp: exactProbe_hit)
    with k n show "messageId c \<notin> set (map messageId e1) \<and>
        (\<exists>k<length messages. \<exists>content.
           extractMessageContent stringify (messages ! k) = Inr content \<and>
           str_includes content searchString \<and>
           messageId c = msg_id (info (messages ! k)) \<and> messageIndex c = int k \<and>
           score c = 100 \<and> matchType c = Exact)"
      by blast
  qed
  show "\<exists>fromSummaries fromMessages.
     em = fromSummaries @ fromMessages \<and>
     (\<forall>c\<in>set fromSummaries. \<exists>s\<in>set sums.
        str_includes (summary s) searchString \<and> \<not> orphaned messages s \<and>
        messageId c = anchorMessageId s \<and>
        messageIndex c = findIndex (\<lambda>m. msg_id (info m) = anchorMessageId s) messages \<and>
        score c = 100 \<and> matchType c = Exact) \<and>
     (\<forall>s\<in>set sums. str_includes (summary s) searchString \<and> \<not> orphaned messages s \<longrightarrow>
        anchorMessageId s \<in> set (map messageId fromSummaries)) \<and>
     (\<forall>c\<in>set fromMessages.
        messageId c \<notin> set (map messageId fromSummaries) \<and>
        (\<exists>k<length messages. \<exists>content.
           extractMessageContent stringify (messages ! k) = Inr content \<and>
           str_includes content searchString \<and>
           messageId c = msg_id (info (messages ! k)) \<and> messageIndex c = int k \<and>
           score c = 100 \<and> matchType c = Exact)) \<and>
     distinct (map messageId em)"
    by (rule exI[of _ e1], rule exI[of _ e2]) (intro conjI d c1' cov c2' dist)
qed

theorem exact_summaries_first_witness:
  "str_includes (summary exAnchored) ''beta''
   \<and> \<not> orphaned exMessages exAnchored
   \<and> extractMessageContent exStringify (exMessages ! 1) = Inr '' gamma beta''
   \<and> str_includes '' gamma beta'' ''beta''
   \<and> findExactMatches exStringify exMessages ''beta'' [exAnchored] =
       Inr [\<lparr>messageId = ''m2'', messageIndex = 1, score = 100, matchType = Exact\<rparr>,
            \<lparr>messageId = ''m1'', messageIndex = 0, score = 100, matchType = Exact\<rparr>]
   \<and> anchorMessageId exAnchored \<in> set (map messageId
       [\<lparr>messageId = ''m2'', messageIndex = 1, score = 100, matchType = Exact\<rparr>,
        \<lparr>messageId = ''m1'', messageIndex = 0, score = 100, matchType = Exact\<rparr>])
   \<and> distinct (map messageId
       [\<lparr>messageId = ''m2'', messageIndex = 1, score = 100, matchType = Exact\<rparr>,
        \<lparr>messageId = ''m1'', messageIndex = 0, score = 100, matchType = Exact\<rparr>])"
proof -
  let ?em = "[\<lparr>messageId = ''m2'', messageIndex = 1, score = 100, matchType = Exact\<rparr>,
              \<lparr>messageId = ''m1'', messageIndex = 0, score = 100, matchType = Exact\<rparr>]"
  have i: "str_includes (summary exAnchored) ''beta''" by code_simp
  have o: "\<not> orphaned exMessages exAnchored" by code_simp
  have x: "extractMessageContent exStringify (exMessages ! 1) = Inr '' gamma beta''" by code_simp
  have m: "str_includes '' gamma beta'' ''beta''" by code_simp
  have v: "findExactMatches exStringify exMessages ''beta'' [exAnchored] = Inr ?em"
    by code_simp
  from v exact_summaries_first[where stringify = exStringify and messages = exMessages
      and searchString = "''beta''" and sums = "[exAnchored]" and em = ?em]
  obtain e1 e2 where
    d: "?em = e1 @ e2"
    and cov: "\<forall>s\<in>set [exAnchored]. str_includes (summary s) ''beta'' \<and> \<not> orphaned exMessages s \<longrightarrow>
        anchorMessageId s \<in> set (map messageId e1)"
    and dist: "distinct (map messageId ?em)"
    by blast
  from cov i o have "anchorMessageId exAnchored \<in> set (map messageId e1)" by simp
  then have "anchorMessageId exAnchored \<in> set (map messageId (e1 @ e2))" by simp
  then have a: "anchorMessageId exAnchored \<in> set (map messageId ?em)"
    by (simp only: d[symmetric])
  from i o x m v a dist show ?thesis by (intro conjI)
qed

text \<open>
  Claim C5 as it is written fails on a summary whose anchor is the identifier of no
  message: its text contains the search string and there is no candidate.
\<close>

theorem orphaned_summary_hit_counterexample:
  "str_includes (summary exOrphan) ''zzz''
   \<and> findExactMatches exStringify exMessages ''zzz'' [exOrphan] = Inr []"
  by code_simp

lemma findStringInMessages_exact:
  "findExactMatches stringify messages searchString (summariesOrDefault sumsArg) \<noteq> Inr [] \<Longrightarrow>
   findStringInMessages partial_ratio stringify messages searchString sumsArg stringType cfgArg =
   (case findExactMatches stringify messages searchString (summariesOrDefault sumsArg) of
      Inl e \<Rightarrow> Inl e
    | Inr [c] \<Rightarrow> Inr (toLocator c, [])
    | Inr cs \<Rightarrow> Inl (MultipleExactMatches stringType))"
  by (simp add: findStringInMessages_def Let_def split: sum.split list.split)

text \<open>
  Claim C4. The fuzzy phase runs only when the exact phase produces no candidate: when
  the exact phase gives anything else, the result depends neither on the scores nor on
  the thresholds, and when it gives no candidate, the fuzzy scan returns its candidates
  and the result is that of the fuzzy phase on them. Every fuzzy candidate carries the
  score of a summary anchored at its message or of the content of its message, and this
  score is at least \<open>minScore\<close>: a summary or message that scores below \<open>minScore\<close> is
  discarded. When there is no exact candidate and no summary and no message reaches
  \<open>minScore\<close>, resolution fails with the not-found error. The default of \<open>minScore\<close> is 85.
\<close>

theorem fuzzy_floor:
  "(findExactMatches stringify messages searchString (summariesOrDefault sumsArg) \<noteq> Inr [] \<longrightarrow>
      findStringInMessages partial_ratio stringify messages searchString sumsArg stringType cfgArg =
      findStringInMessages partial_ratio' stringify messages searchString sumsArg stringType cfgArg')
   \<and> (findExactMatches stringify messages searchString (summariesOrDefault sumsArg) = Inr [] \<longrightarrow>
      (\<exists>fm. findFuzzyMatches partial_ratio stringify messages searchString (summariesOrDefault sumsArg)
              (minScore (configOrDefault cfgArg)) = Inr fm \<and>
            findStringInMessages partial_ratio stringify messages searchString sumsArg stringType cfgArg =
              fuzzyPhase stringType (configOrDefault cfgArg) fm))
   \<and> (findFuzzyMatches partial_ratio stringify messages searchString sums minSc = Inr fms \<longrightarrow>
      (\<forall>c\<in>set fms.
        minSc \<le> score c \<and> matchType c = Fuzzy \<and>
        ((\<exists>s\<in>set sums. messageId c = anchorMessageId s \<and>
            score c = partial_ratio searchString (summary s)) \<or>
         (\<exists>k<length messages. \<exists>content.
            extractMessageContent stringify (messages ! k) = Inr content \<and>
            messageId c = msg_id (info (messages ! k)) \<and> messageIndex c = int k \<and>
            score c = partial_ratio searchString content))))
   \<and> (findExactMatches stringify messages searchString (summariesOrDefault sumsArg) = Inr [] \<and>
       (\<forall>s\<in>set (summariesOrDefault sumsArg).
          partial_ratio searchString (summary s) < minScore (configOrDefault cfgArg)) \<and>
       (\<forall>m\<in>set messages. \<forall>content. extractMessageContent stringify m = Inr content \<longrightarrow>
          partial_ratio searchString content < minScore (configOrDefault cfgArg)) \<longrightarrow>
      findStringInMessages partial_ratio stringify messages searchString sumsArg stringType cfgArg =
        Inl (NotFound stringType))
   \<and> minScore (configOrDefault None) = 85"
proof (intro conjI impI ballI)
  assume "findExactMatches stringify messages searchString (summariesOrDefault sumsArg) \<noteq> Inr []"
  then show "findStringInMessages partial_ratio stringify messages searchString sumsArg stringType cfgArg =
      findStringInMessages partial_ratio' stringify messages searchString sumsArg stringType cfgArg'"
    by (simp add: findStringInMessages_exact)
next
  assume e: "findExactMatches stringify messages searchString (summariesOrDefault sumsArg) = Inr []"
  from findFuzzyMatches_after_exact[OF e] obtain fm where
    fm: "findFuzzyMatches partial_ratio stringify messages searchString (summariesOrDefault sumsArg)
           (minScore (configOrDefault cfgArg)) = Inr fm" by blast
  from findStringInMessages_fuzzy[OF e fm] fm
  show "\<exists>fm. findFuzzyMatches partial_ratio stringify messages searchString (summariesOrDefault sumsArg)
              (minScore (configOrDefault cfgArg)) = Inr fm \<and>
            findStringInMessages partial_ratio stringify messages searchString sumsArg stringType cfgArg =
              fuzzyPhase stringType (configOrDefault cfgArg) fm"
    by blast
next
  fix c
  assume f: "findFuzzyMatches partial_ratio stringify messages searchString sums minSc = Inr fms"
    and c: "c \<in> set fms"
  from findFuzzyMatches_decomposition[OF f]
  obtain e1 e2 where
    d: "fms = e1 @ e2"
    and c1: "\<forall>c\<in>set e1.
        summaryCand (\<lambda>s. minSc \<le> partial_ratio searchString (summary s))
          (\<lambda>s. partial_ratio searchString (summary s)) Fuzzy messages sums c"
    and c2: "\<forall>c\<in>set e2.
        messageCand (fuzzyProbe partial_ratio stringify searchString minSc) Fuzzy messages 0 c \<and>
        messageId c \<notin> set (map messageId e1)"
    by blast
  from c d have "c \<in> set e1 \<or> c \<in> set e2" by simp
  then have r: "minSc \<le> score c \<and> matchType c = Fuzzy \<and>
        ((\<exists>s\<in>set sums. messageId c = anchorMessageId s \<and>
            score c = partial_ratio searchString (summary s)) \<or>
         (\<exists>k<length messages. \<exists>content.
            extractMessageContent stringify (messages ! k) = Inr content \<and>
            messageId c = msg_id (info (messages ! k)) \<and> messageIndex c = int k \<and>
            score c = partial_ratio searchString content))"
  proof
    assume "c \<in> set e1"
    with c1 have "summaryCand (\<lambda>s. minSc \<le> partial_ratio searchString (summary s))
          (\<lambda>s. partial_ratio searchString (summary s)) Fuzzy messages sums c" by blast
    then show ?thesis unfolding summaryCand_def by auto
  next
    assume "c \<in> set e2"
    with c2 have "messageCand (fuzzyProbe partial_ratio stringify searchString minSc) Fuzzy messages 0 c"
      by blast
    then obtain k where k: "k < length messages"
      "fuzzyProbe partial_ratio stringify searchString minSc (messages ! k) = Inr (True, score c)"
      "messageId c = msg_id (info (messages ! k))" "messageIndex c = int k" "matchType c = Fuzzy"
      by (auto simp: messageCand_def)
    from k(2) obtain content where
      "extractMessageContent stringify (messages ! k) = Inr content"
      "minSc \<le> partial_ratio searchString content" "score c = partial_ratio searchString content"
      by (auto simp: fuzzyProbe_hit)
    with k show ?thesis by auto
  qed
  from r show "minSc \<le> score c" by simp
  from r show "matchType c = Fuzzy" by simp
  from r show "(\<exists>s\<in>set sums. messageId c = anchorMessageId s \<and>
            score c = partial_ratio searchString (summary s)) \<or>
         (\<exists>k<length messages. \<exists>content.
            extractMessageContent stringify (messages ! k) = Inr content \<and>
            messageId c = msg_id (info (messages ! k)) \<and> messageIndex c = int k \<and>
            score c = partial_ratio searchString content)" by simp
next
  assume h: "findExactMatches stringify messages searchString (summariesOrDefault sumsArg) = Inr [] \<and>
       (\<forall>s\<in>set (summariesOrDefault sumsArg).
          partial_ratio searchString (summary s) < minScore (configOrDefault cfgArg)) \<and>
       (\<forall>m\<in>set messages. \<forall>content. extractMessageContent stringify m = Inr content \<longrightarrow>
          partial_ratio searchString content < minScore (configOrDefault cfgArg))"
  then have e: "findExactMatches stringify messages searchString (summariesOrDefault sumsArg) = Inr []"
    by simp
  have x: "\<forall>m\<in>set messages. \<exists>content. extractMessageContent stringify m = Inr content \<and>
      partial_ratio searchString content < minScore (configOrDefault cfgArg)"
  proof
    fix m assume m: "m \<in> set messages"
    from findExactMatches_Nil_extracts[OF e m] obtain content where
      "extractMessageContent stringify m = Inr content" by blast
    with h m show "\<exists>content. extractMessageContent stringify m = Inr content \<and>
      partial_ratio searchString content < minScore (configOrDefault cfgArg)" by blast
  qed
  have f: "findFuzzyMatches partial_ratio stringify messages searchString (summariesOrDefault sumsArg)
             (minScore (configOrDefault cfgArg)) = Inr []"
    using h x by (intro findFuzzyMatches_no_hit) auto
  show "findStringInMessages partial_ratio stringify messages searchString sumsArg stringType cfgArg =
        Inl (NotFound stringType)"
    by (simp add: findStringInMessages_fuzzy[OF e f] fuzzyPhase_Nil)
next
  show "minScore (configOrDefault None) = 85"
    by (simp add: configOrDefault_def DEFAULT_FUZZY_CONFIG_def)
qed

theorem fuzzy_floor_witness:
  "findExactMatches exStringify exMessages ''alpha'' (summariesOrDefault None) \<noteq> Inr []
   \<and> findStringInMessages exRatio exStringify exMessages ''alpha'' None StartString None =
       findStringInMessages (\<lambda>s t. 0) exStringify exMessages ''alpha'' None StartString
         (Some \<lparr>minScore = 0, minGap = 0\<rparr>)
   \<and> findExactMatches exStringify exMessages ''alpah'' (summariesOrDefault None) = Inr []
   \<and> extractMessageContent exStringify (exMessages ! 0) = Inr '' alpha beta''
   \<and> extractMessageContent exStringify (exMessages ! 1) = Inr '' gamma beta''
   \<and> exRatio ''alpah'' '' alpha beta'' < 96
   \<and> exRatio ''alpah'' '' gamma beta'' < 96
   \<and> findStringInMessages exRatio exStringify exMessages ''alpah'' None StartString
         (Some \<lparr>minScore = 96, minGap = 15\<rparr>) = Inl (NotFound StartString)
   \<and> findFuzzyMatches exRatio exStringify exMessages ''alpah'' [] 85 =
       Inr [\<lparr>messageId = ''m1'', messageIndex = 0, score = 95, matchType = Fuzzy\<rparr>,
            \<lparr>messageId = ''m2'', messageIndex = 1, score = 90, matchType = Fuzzy\<rparr>]
   \<and> list_all (\<lambda>c. 85 \<le> score c)
       [\<lparr>messageId = ''m1'', messageIndex = 0, score = 95, matchType = Fuzzy\<rparr>,
        \<lparr>messageId = ''m2'', messageIndex = 1, score = 90, matchType = Fuzzy\<rparr>]"
proof -
  let ?fm = "[\<lparr>messageId = ''m1'', messageIndex = 0, score = 95, matchType = Fuzzy\<rparr>,
              \<lparr>messageId = ''m2'', messageIndex = 1, score = 90, matchType = Fuzzy\<rparr>]"
  have a: "findExactMatches exStringify exMessages ''alpha'' (summariesOrDefault None) \<noteq> Inr []"
    by code_simp
  have e: "findExactMatches exStringify exMessages ''alpah'' (summariesOrDefault None) = Inr []"
    by code_simp
  have x0: "extractMessageContent exStringify (exMessages ! 0) = Inr '' alpha beta''" by code_simp
  have x1: "extractMessageContent exStringify (exMessages ! 1) = Inr '' gamma beta''" by code_simp
  have r0: "exRatio ''alpah'' '' alpha beta'' < 96" by code_simp
  have r1: "exRatio ''alpah'' '' gamma beta'' < 96" by code_simp
  have ms: "set exMessages = {exMessages ! 0, exMessages ! 1}" by (simp add: exMessages_def)
  have n: "findFuzzyMatches exRatio exStringify exMessages ''alpah'' [] 85 = Inr ?fm" by code_simp
  have hs: "\<forall>s\<in>set (summariesOrDefault None).
      exRatio ''alpah'' (summary s) < minScore (configOrDefault (Some \<lparr>minScore = 96, minGap = 15\<rparr>))"
    by (simp add: summariesOrDefault_def)
  have hm: "\<forall>m\<in>set exMessages. \<forall>content. extractMessageContent exStringify m = Inr content \<longrightarrow>
      exRatio ''alpah'' content
        < minScore (configOrDefault (Some \<lparr>minScore = 96, minGap = 15\<rparr>))"
    using x0 x1 r0 r1 by (auto simp: ms configOrDefault_def)
  from a fuzzy_floor[where stringify = exStringify and messages = exMessages
      and searchString = "''alpha''" and sumsArg = None and partial_ratio = exRatio
      and stringType = StartString and cfgArg = None
      and partial_ratio' = "\<lambda>s t. 0" and cfgArg' = "Some \<lparr>minScore = 0, minGap = 0\<rparr>"]
  have i: "findStringInMessages exRatio exStringify exMessages ''alpha'' None StartString None =
       findStringInMessages (\<lambda>s t. 0) exStringify exMessages ''alpha'' None StartString
         (Some \<lparr>minScore = 0, minGap = 0\<rparr>)"
    by blast
  from e hs hm fuzzy_floor[where stringify = exStringify and messages = exMessages
      and searchString = "''alpah''" and sumsArg = None and partial_ratio = exRatio
      and stringType = StartString and cfgArg = "Some \<lparr>minScore = 96, minGap = 15\<rparr>"]
  have f: "findStringInMessages exRatio exStringify exMessages ''alpah'' None StartString
         (Some \<lparr>minScore = 96, minGap = 15\<rparr>) = Inl (NotFound StartString)"
    by blast
  from n fuzzy_floor[where stringify = exStringify and messages = exMessages
      and searchString = "''alpah''" and partial_ratio = exRatio
      and sums = "[]" and minSc = 85 and fms = ?fm]
  have "\<forall>c\<in>set ?fm. 85 \<le> score c"
    by blast
  then have l: "list_all (\<lambda>c. 85 \<le> score c) ?fm"
    by (simp only: list_all_iff)
  from a i e x0 x1 r0 r1 f n l show ?thesis by (intro conjI)
qed

section \<open>The claim about the content extractor\<close>

lemma spacePrefixed_Nil: "spacePrefixed [] = []"
  by (simp add: spacePrefixed_def)

lemma spacePrefixed_append: "spacePrefixed (fs @ gs) = spacePrefixed fs @ spacePrefixed gs"
  by (simp add: spacePrefixed_def)

lemma addIfString_fragment: "addIfString content v = content @ spacePrefixed (stringFragment v)"
  by (cases v) (simp_all add: spacePrefixed_def)

lemma toolCase_fragments:
  "toolCase stringify p content =
   content @ spacePrefixed (if truthy (getProp p ''state'')
                            then toolFragments truthy stringify (getProp p ''state'') else [])"
  by (simp add: toolCase_def toolFragments_def Let_def addIfString_fragment spacePrefixed_append)
     (auto simp: spacePrefixed_def elim: isString.elims)

lemma partStep_fragments:
  "partStep stringify p content =
   (if nullish p then Inl TypeError else Inr (content @ spacePrefixed (fragments stringify p)))"
  by (simp add: partStep_def fragments_def fragmentsWith_def Let_def addIfString_fragment
        toolCase_fragments spacePrefixed_append spacePrefixed_Nil)

lemma fragments_nullish: "nullish p \<Longrightarrow> fragments stringify p = []"
  by (simp add: fragments_def fragmentsWith_def)

lemma extractLoop_fragments:
  "extractLoop stringify ps content =
   (if list_ex nullish ps then Inl TypeError
    else Inr (content @ spacePrefixed (concat (map (fragments stringify) ps))))"
  by (induction ps arbitrary: content)
     (simp_all add: partStep_fragments spacePrefixed_append spacePrefixed_Nil)

lemma spacePrefixed_separated: "fs \<noteq> [] \<Longrightarrow> spacePrefixed fs = '' '' @ spaceSeparated fs"
  by (induction fs rule: spaceSeparated.induct) (simp_all add: spacePrefixed_def)

text \<open>
  Claim C8, as amended. The content extractor is a function of the message alone. On a
  message whose parts have no entry that is null or undefined, its result is the
  fragments of the parts, in part order, each one preceded by a single space: when there
  is a fragment, the result is a space followed by the fragments separated by single
  spaces, and when there is none it is the empty string. The fragments of a part are the
  text of a text or reasoning part; for a tool part, the output when the status is
  completed or the error when the status is error, then the input when it is truthy,
  stringified when it is not a string; the summary of a compaction part; the summary and
  then the result of a subtask part; a field that is not a string gives no fragment. The
  first conjunct also says what the code does on every other message: the read of the
  type of an entry that is null or undefined throws.
\<close>

theorem extract_space_prefixed:
  "extractMessageContent stringify msg =
     (if list_ex nullish (elems (parts msg)) then Inl TypeError
      else Inr (spacePrefixed (messageFragments stringify msg)))
   \<and> (\<not> list_ex nullish (elems (parts msg)) \<and> messageFragments stringify msg \<noteq> [] \<longrightarrow>
        extractMessageContent stringify msg =
          Inr ('' '' @ spaceSeparated (messageFragments stringify msg)))
   \<and> (\<not> list_ex nullish (elems (parts msg)) \<and> messageFragments stringify msg = [] \<longrightarrow>
        extractMessageContent stringify msg = Inr [])"
proof -
  have e: "extractMessageContent stringify msg =
     (if list_ex nullish (elems (parts msg)) then Inl TypeError
      else Inr (spacePrefixed (messageFragments stringify msg)))"
    by (simp add: extractMessageContent_def messageFragments_def extractLoop_fragments)
  show ?thesis
    by (simp add: e spacePrefixed_separated) (simp add: spacePrefixed_def)
qed

theorem extract_space_prefixed_witness:
  "\<not> list_ex nullish (elems (parts exMessage))
   \<and> messageFragments exStringify exMessage = [''alpha'', ''done'', ''{}'']
   \<and> extractMessageContent exStringify exMessage = Inr '' alpha done {}''
   \<and> \<not> list_ex nullish (elems (parts exFalsyInput))
   \<and> messageFragments exStringify exFalsyInput = [''done'']
   \<and> extractMessageContent exStringify exFalsyInput = Inr '' done''
   \<and> list_ex nullish (elems (parts exNullPart))
   \<and> extractMessageContent exStringify exNullPart = Inl TypeError"
proof -
  have n1: "\<not> list_ex nullish (elems (parts exMessage))" by code_simp
  have f1: "messageFragments exStringify exMessage = [''alpha'', ''done'', ''{}'']" by code_simp
  have n2: "\<not> list_ex nullish (elems (parts exFalsyInput))" by code_simp
  have f2: "messageFragments exStringify exFalsyInput = [''done'']" by code_simp
  have n3: "list_ex nullish (elems (parts exNullPart))" by code_simp
  from extract_space_prefixed[of exStringify exMessage] n1 f1
  have r1: "extractMessageContent exStringify exMessage = Inr '' alpha done {}''"
    by (simp add: spacePrefixed_def)
  from extract_space_prefixed[of exStringify exFalsyInput] n2 f2
  have r2: "extractMessageContent exStringify exFalsyInput = Inr '' done''"
    by (simp add: spacePrefixed_def)
  from extract_space_prefixed[of exStringify exNullPart] n3
  have r3: "extractMessageContent exStringify exNullPart = Inl TypeError" by simp
  from n1 f1 r1 n2 f2 r2 n3 r3 show ?thesis by (intro conjI)
qed

text \<open>
  Claim C8 as it is written fails in three ways. The result is not the fragments separated
  by spaces: it starts with a space. An input that is present and falsy (here
  \<^verbatim>\<open>false\<close>) is not stringified: it is skipped. An entry of the parts that is null is not
  skipped silently: the extractor throws and returns no string.
\<close>

theorem extract_space_separated_counterexample:
  "claimedExtract exStringify exMessage = ''alpha done {}''
   \<and> extractMessageContent exStringify exMessage = Inr '' alpha done {}''
   \<and> claimedExtract exStringify exFalsyInput = ''done false''
   \<and> extractMessageContent exStringify exFalsyInput = Inr '' done''
   \<and> claimedExtract exStringify exNullPart = ''alpha''
   \<and> extractMessageContent exStringify exNullPart = Inl TypeError
   \<and> extractMessageContent exStringify exMessage \<noteq> Inr (claimedExtract exStringify exMessage)
   \<and> extractMessageContent exStringify exFalsyInput \<noteq>
       Inr ('' '' @ claimedExtract exStringify exFalsyInput)
   \<and> extractMessageContent exStringify exNullPart \<noteq>
       Inr ('' '' @ claimedExtract exStringify exNullPart)"
  by code_simp

section \<open>The claims about the Anthropic format descriptor\<close>

lemma field_update: "field (AList.update k v kvs) k' = (if k' = k then v else field kvs k')"
  by (simp add: field_def update_conv')

lemma update_twice: "AList.update k v (AList.update k w kvs) = AList.update k v kvs"
  by (rule update_last)

text \<open>
  Claim C6. Injecting a text into a body whose system channel is a string makes the
  channel a list of two text blocks, the first with the original string and the second
  with the injected text. When the channel is a list already, the injected text is added
  at its end as a text block. When the channel is absent (or is neither a string nor a
  list), the channel becomes the list of the one injected text block. No other field of
  the body changes, and the injection returns true.
\<close>

theorem inject_system_message:
  "(field body ''system'' = JStr s \<longrightarrow>
      anthropicFormat_injectSystemMessage body injection =
        (AList.update ''system'' (JArr [textBlock s, textBlock injection]) body, True))
   \<and> (field body ''system'' = JArr xs \<longrightarrow>
      anthropicFormat_injectSystemMessage body injection =
        (AList.update ''system'' (JArr (xs @ [textBlock injection])) body, True))
   \<and> (\<not> isString (field body ''system'') \<and> \<not> isArray (field body ''system'') \<longrightarrow>
      anthropicFormat_injectSystemMessage body injection =
        (AList.update ''system'' (JArr [textBlock injection]) body, True))
   \<and> (field body ''system'' = JUndefined \<longrightarrow>
      field (fst (anthropicFormat_injectSystemMessage body injection)) ''system'' =
        JArr [textBlock injection])
   \<and> (field body ''system'' = JStr s \<longrightarrow>
      field (fst (anthropicFormat_injectSystemMessage body injection)) ''system'' =
        JArr [JObj [(''type'', JStr ''text''), (''text'', JStr s)],
              JObj [(''type'', JStr ''text''), (''text'', JStr injection)]])
   \<and> (\<forall>k. k \<noteq> ''system'' \<longrightarrow>
        field (fst (anthropicFormat_injectSystemMessage body injection)) k = field body k)
   \<and> snd (anthropicFormat_injectSystemMessage body injection) = True"
proof -
  have a: "field body ''system'' = JStr s \<Longrightarrow>
      anthropicFormat_injectSystemMessage body injection =
        (AList.update ''system'' (JArr [textBlock s, textBlock injection]) body, True)" for s
    by (simp add: anthropicFormat_injectSystemMessage_def field_update update_twice)
  have b: "field body ''system'' = JArr xs \<Longrightarrow>
      anthropicFormat_injectSystemMessage body injection =
        (AList.update ''system'' (JArr (xs @ [textBlock injection])) body, True)" for xs
    by (simp add: anthropicFormat_injectSystemMessage_def)
  have c: "\<not> isString (field body ''system'') \<Longrightarrow> \<not> isArray (field body ''system'') \<Longrightarrow>
      anthropicFormat_injectSystemMessage body injection =
        (AList.update ''system'' (JArr [textBlock injection]) body, True)"
    by (cases "field body ''system''")
       (simp_all add: anthropicFormat_injectSystemMessage_def field_update update_twice)
  have d: "k \<noteq> ''system'' \<Longrightarrow>
        field (fst (anthropicFormat_injectSystemMessage body injection)) k = field body k" for k
    by (cases "field body ''system''")
       (simp_all add: anthropicFormat_injectSystemMessage_def field_update)
  have e: "snd (anthropicFormat_injectSystemMessage body injection) = True"
    by (simp add: anthropicFormat_injectSystemMessage_def Let_def)
  show ?thesis
  proof (intro conjI impI allI)
    show "field body ''system'' = JStr s \<Longrightarrow>
      anthropicFormat_injectSystemMessage body injection =
        (AList.update ''system'' (JArr [textBlock s, textBlock injection]) body, True)" by (rule a)
    show "field body ''system'' = JArr xs \<Longrightarrow>
      anthropicFormat_injectSystemMessage body injection =
        (AList.update ''system'' (JArr (xs @ [textBlock injection])) body, True)" by (rule b)
    show "\<not> isString (field body ''system'') \<and> \<not> isArray (field body ''system'') \<Longrightarrow>
      anthropicFormat_injectSystemMessage body injection =
        (AList.update ''system'' (JArr [textBlock injection]) body, True)"
      using c by simp
    show "field body ''system'' = JUndefined \<Longrightarrow>
      field (fst (anthropicFormat_injectSystemMessage body injection)) ''system'' =
        JArr [textBlock injection]"
      using c by (simp add: field_update)
    show "field body ''system'' = JStr s \<Longrightarrow>
      field (fst (anthropicFormat_injectSystemMessage body injection)) ''system'' =
        JArr [JObj [(''type'', JStr ''text''), (''text'', JStr s)],
              JObj [(''type'', JStr ''text''), (''text'', JStr injection)]]"
      using a by (simp add: field_update textBlock_def)
    show "\<And>k. k \<noteq> ''system'' \<Longrightarrow>
        field (fst (anthropicFormat_injectSystemMessage body injection)) k = field body k" by (rule d)
    show "snd (anthropicFormat_injectSystemMessage body injection) = True" by (rule e)
  qed
qed

theorem inject_system_message_witness:
  "field exBodyString ''system'' = JStr ''Original system''
   \<and> anthropicFormat_injectSystemMessage exBodyString ''Injected message'' =
       ([(''system'', JArr [JObj [(''type'', JStr ''text''), (''text'', JStr ''Original system'')],
                           JObj [(''type'', JStr ''text''), (''text'', JStr ''Injected message'')]]),
         (''messages'', JArr [])], True)
   \<and> field exBodyArray ''system'' = JArr [textBlock ''Original'']
   \<and> anthropicFormat_injectSystemMessage exBodyArray ''Injected'' =
       ([(''system'', JArr [JObj [(''type'', JStr ''text''), (''text'', JStr ''Original'')],
                           JObj [(''type'', JStr ''text''), (''text'', JStr ''Injected'')]]),
         (''messages'', JArr [])], True)
   \<and> field exBodyAbsent ''system'' = JUndefined
   \<and> field (fst (anthropicFormat_injectSystemMessage exBodyAbsent ''Injected'')) ''system'' =
       JArr [JObj [(''type'', JStr ''text''), (''text'', JStr ''Injected'')]]
   \<and> field (fst (anthropicFormat_injectSystemMessage exBodyAbsent ''Injected'')) ''model'' =
       JStr ''claude''"
proof -
  have s1: "field exBodyString ''system'' = JStr ''Original system''"
    by (simp add: exBodyString_def field_def)
  have s2: "field exBodyArray ''system'' = JArr [textBlock ''Original'']"
    by (simp add: exBodyArray_def field_def)
  have s3: "field exBodyAbsent ''system'' = JUndefined"
    by (simp add: exBodyAbsent_def field_def)
  have s4: "field exBodyAbsent ''model'' = JStr ''claude''"
    by (simp add: exBodyAbsent_def field_def)
  from s1 inject_system_message[of exBodyString "''Original system''" "''Injected message''"]
  have r1: "anthropicFormat_injectSystemMessage exBodyString ''Injected message'' =
        (AList.update ''system'' (JArr [textBlock ''Original system'', textBlock ''Injected message'']) exBodyString, True)"
    by blast
  from s2 inject_system_message[of exBodyArray _ "''Injected''" "[textBlock ''Original'']"]
  have r2: "anthropicFormat_injectSystemMessage exBodyArray ''Injected'' =
        (AList.update ''system'' (JArr ([textBlock ''Original''] @ [textBlock ''Injected''])) exBodyArray, True)"
    by blast
  from s3 inject_system_message[of exBodyAbsent _ "''Injected''"]
  have r3: "field (fst (anthropicFormat_injectSystemMessage exBodyAbsent ''Injected'')) ''system'' =
        JArr [textBlock ''Injected'']"
    by blast
  from inject_system_message[of exBodyAbsent _ "''Injected''"]
  have "\<forall>k. k \<noteq> ''system'' \<longrightarrow>
        field (fst (anthropicFormat_injectSystemMessage exBodyAbsent ''Injected'')) k = field exBodyAbsent k"
    by blast
  then have r4: "field (fst (anthropicFormat_injectSystemMessage exBodyAbsent ''Injected'')) ''model'' =
       JStr ''claude''"
    using s4 by simp
  from s1 s2 s3 r1 r2 r3 r4 show ?thesis
    by (simp add: exBodyString_def exBodyArray_def textBlock_def)
qed



lemma replaceBlock_other: "\<not> isToolResultFor toolId b \<Longrightarrow> replaceBlock toolId pruned b = b"
  by (cases b) simp_all

lemma replaceBlock_content:
  "isToolResultFor toolId b \<Longrightarrow> fieldOf (replaceBlock toolId pruned b) ''content'' = JStr pruned"
  by (cases b) (simp_all add: field_update isToolResultFor_def)

lemma replaceBlock_siblings:
  "k \<noteq> ''content'' \<Longrightarrow> fieldOf (replaceBlock toolId pruned b) k = fieldOf b k"
  by (cases b) (simp_all add: field_update)

lemma replaceBlock_keys:
  "isToolResultFor toolId (JObj kvs) \<Longrightarrow>
   \<exists>kvs'. replaceBlock toolId pruned (JObj kvs) = JObj kvs' \<and>
          map fst kvs' = (if ''content'' \<in> fst ` set kvs then map fst kvs else map fst kvs @ [''content''])"
  by (simp add: update_keys)

lemma map_replaceBlock_none:
  "\<not> list_ex (isToolResultFor toolId) bs \<Longrightarrow> map (replaceBlock toolId pruned) bs = bs"
  by (induction bs) (simp_all add: replaceBlock_other)

lemma update_same: "field kvs k = v \<Longrightarrow> v \<noteq> JUndefined \<Longrightarrow> AList.update k v kvs = kvs"
  by (induction kvs) (auto simp: field_def split: if_splits option.splits)

lemma isArray_elems: "isArray v \<Longrightarrow> JArr (elems v) = v"
  by (cases v) simp_all

lemma replaceInMessage_none:
  "\<not> hasToolResultFor toolId m \<Longrightarrow> replaceInMessage toolId pruned m = m"
proof (cases m)
  case (JObj kvs)
  assume n: "\<not> hasToolResultFor toolId m"
  show ?thesis
  proof (cases "carriesToolResults m")
    case True
    then have arr: "isArray (field kvs ''content'')" by (simp add: carriesToolResults_def JObj)
    from n True have "\<not> list_ex (isToolResultFor toolId) (elems (field kvs ''content''))"
      by (simp add: hasToolResultFor_def JObj)
    then have "map (replaceBlock toolId pruned) (elems (field kvs ''content'')) = elems (field kvs ''content'')"
      by (rule map_replaceBlock_none)
    moreover have "AList.update ''content'' (field kvs ''content'') kvs = kvs"
      using arr by (intro update_same) auto
    ultimately show ?thesis using True arr by (simp add: JObj isArray_elems)
  next
    case False
    then show ?thesis by (simp add: JObj)
  qed
qed simp_all

lemma replaceInMessage_other: "\<not> carriesToolResults m \<Longrightarrow> replaceInMessage toolId pruned m = m"
  by (cases m) simp_all

lemma replaceInMessage_fields:
  "k \<noteq> ''content'' \<Longrightarrow> fieldOf (replaceInMessage toolId pruned m) k = fieldOf m k"
  by (cases m) (simp_all add: field_update)

lemma replaceInMessage_content:
  "carriesToolResults m \<Longrightarrow>
   fieldOf (replaceInMessage toolId pruned m) ''content'' =
   JArr (map (replaceBlock toolId pruned) (elems (fieldOf m ''content'')))"
  by (cases m) (simp_all add: field_update carriesToolResults_def)

lemma replaceToolOutput_miss:
  "\<not> list_ex (hasToolResultFor toolId) data \<Longrightarrow> map (replaceInMessage toolId pruned) data = data"
  by (induction data) (simp_all add: replaceInMessage_none)

text \<open>
  Claim C7. Replacing the output of a tool in the messages of a body overwrites the content
  field of every tool-result block whose identifier matches case-folded, and nothing else:
  the other fields of such a block, the other blocks, the other fields of the messages and
  the messages that carry no tool results are as before. The result is true exactly when
  some tool-result block matches; when none does, the result is false and the messages
  are unchanged. The miss is a result, not an error.
\<close>

theorem replace_tool_output_frame:
  "length (fst (anthropicFormat_replaceToolOutput data toolId pruned)) = length data
   \<and> (snd (anthropicFormat_replaceToolOutput data toolId pruned) \<longleftrightarrow>
        (\<exists>m\<in>set data. carriesToolResults m \<and>
           (\<exists>b\<in>set (elems (fieldOf m ''content'')). isToolResultFor toolId b)))
   \<and> (\<not> snd (anthropicFormat_replaceToolOutput data toolId pruned) \<longrightarrow>
        fst (anthropicFormat_replaceToolOutput data toolId pruned) = data)
   \<and> (\<forall>i<length data.
        (\<forall>k. k \<noteq> ''content'' \<longrightarrow>
           fieldOf (fst (anthropicFormat_replaceToolOutput data toolId pruned) ! i) k = fieldOf (data ! i) k) \<and>
        (\<not> carriesToolResults (data ! i) \<longrightarrow>
           fst (anthropicFormat_replaceToolOutput data toolId pruned) ! i = data ! i) \<and>
        (carriesToolResults (data ! i) \<longrightarrow>
           length (elems (fieldOf (fst (anthropicFormat_replaceToolOutput data toolId pruned) ! i) ''content'')) =
             length (elems (fieldOf (data ! i) ''content'')) \<and>
           (\<forall>j<length (elems (fieldOf (data ! i) ''content'')).
              (isToolResultFor toolId (elems (fieldOf (data ! i) ''content'') ! j) \<longrightarrow>
                 fieldOf (elems (fieldOf (fst (anthropicFormat_replaceToolOutput data toolId pruned) ! i) ''content'') ! j)
                   ''content'' = JStr pruned) \<and>
              (\<not> isToolResultFor toolId (elems (fieldOf (data ! i) ''content'') ! j) \<longrightarrow>
                 elems (fieldOf (fst (anthropicFormat_replaceToolOutput data toolId pruned) ! i) ''content'') ! j =
                   elems (fieldOf (data ! i) ''content'') ! j) \<and>
              (\<forall>k. k \<noteq> ''content'' \<longrightarrow>
                 fieldOf (elems (fieldOf (fst (anthropicFormat_replaceToolOutput data toolId pruned) ! i) ''content'') ! j) k =
                   fieldOf (elems (fieldOf (data ! i) ''content'') ! j) k))))"
proof -
  have f: "fst (anthropicFormat_replaceToolOutput data toolId pruned) = map (replaceInMessage toolId pruned) data"
    by (simp add: anthropicFormat_replaceToolOutput_def)
  have s: "snd (anthropicFormat_replaceToolOutput data toolId pruned) = list_ex (hasToolResultFor toolId) data"
    by (simp add: anthropicFormat_replaceToolOutput_def)
  have a: "length (fst (anthropicFormat_replaceToolOutput data toolId pruned)) = length data"
    by (simp add: f)
  have b: "snd (anthropicFormat_replaceToolOutput data toolId pruned) \<longleftrightarrow>
        (\<exists>m\<in>set data. carriesToolResults m \<and>
           (\<exists>b\<in>set (elems (fieldOf m ''content'')). isToolResultFor toolId b))"
    by (simp add: s list_ex_iff hasToolResultFor_def)
  have c: "\<not> snd (anthropicFormat_replaceToolOutput data toolId pruned) \<longrightarrow>
        fst (anthropicFormat_replaceToolOutput data toolId pruned) = data"
    by (simp add: f s replaceToolOutput_miss)
  have d: "(\<forall>k. k \<noteq> ''content'' \<longrightarrow>
           fieldOf (map (replaceInMessage toolId pruned) data ! i) k = fieldOf (data ! i) k) \<and>
        (\<not> carriesToolResults (data ! i) \<longrightarrow>
           map (replaceInMessage toolId pruned) data ! i = data ! i) \<and>
        (carriesToolResults (data ! i) \<longrightarrow>
           length (elems (fieldOf (map (replaceInMessage toolId pruned) data ! i) ''content'')) =
             length (elems (fieldOf (data ! i) ''content'')) \<and>
           (\<forall>j<length (elems (fieldOf (data ! i) ''content'')).
              (isToolResultFor toolId (elems (fieldOf (data ! i) ''content'') ! j) \<longrightarrow>
                 fieldOf (elems (fieldOf (map (replaceInMessage toolId pruned) data ! i) ''content'') ! j)
                   ''content'' = JStr pruned) \<and>
              (\<not> isToolResultFor toolId (elems (fieldOf (data ! i) ''content'') ! j) \<longrightarrow>
                 elems (fieldOf (map (replaceInMessage toolId pruned) data ! i) ''content'') ! j =
                   elems (fieldOf (data ! i) ''content'') ! j) \<and>
              (\<forall>k. k \<noteq> ''content'' \<longrightarrow>
                 fieldOf (elems (fieldOf (map (replaceInMessage toolId pruned) data ! i) ''content'') ! j) k =
                   fieldOf (elems (fieldOf (data ! i) ''content'') ! j) k)))"
    if i: "i < length data" for i
    using i
    by (simp add: replaceInMessage_fields replaceInMessage_other replaceInMessage_content
          replaceBlock_content replaceBlock_other replaceBlock_siblings)
  show ?thesis
    unfolding f using a b c d by (simp add: f)
qed

theorem replace_tool_output_frame_witness:
  "carriesToolResults (exData ! 0)
   \<and> isToolResultFor ''TOOLU_456'' (elems (fieldOf (exData ! 0) ''content'') ! 1)
   \<and> \<not> isToolResultFor ''TOOLU_456'' (elems (fieldOf (exData ! 0) ''content'') ! 0)
   \<and> snd (anthropicFormat_replaceToolOutput exData ''TOOLU_456'' ''[PRUNED]'')
   \<and> fieldOf (elems (fieldOf (fst (anthropicFormat_replaceToolOutput exData ''TOOLU_456'' ''[PRUNED]'') ! 0)
         ''content'') ! 1) ''content'' = JStr ''[PRUNED]''
   \<and> fieldOf (elems (fieldOf (fst (anthropicFormat_replaceToolOutput exData ''TOOLU_456'' ''[PRUNED]'') ! 0)
         ''content'') ! 1) ''is_error'' = JBool False
   \<and> elems (fieldOf (fst (anthropicFormat_replaceToolOutput exData ''TOOLU_456'' ''[PRUNED]'') ! 0)
         ''content'') ! 0 = JObj [(''type'', JStr ''text''), (''text'', JStr ''hi'')]
   \<and> \<not> snd (anthropicFormat_replaceToolOutput exData ''toolu_999'' ''[PRUNED]'')
   \<and> fst (anthropicFormat_replaceToolOutput exData ''toolu_999'' ''[PRUNED]'') = exData"
proof -
  let ?R = "anthropicFormat_replaceToolOutput exData ''TOOLU_456'' ''[PRUNED]''"
  let ?bs = "elems (fieldOf (exData ! 0) ''content'')"
  let ?bs' = "elems (fieldOf (fst ?R ! 0) ''content'')"
  have len: "0 < length exData" by (simp add: exData_def)
  have c: "carriesToolResults (exData ! 0)" by code_simp
  have b1: "isToolResultFor ''TOOLU_456'' (?bs ! 1)" by code_simp
  have b0: "\<not> isToolResultFor ''TOOLU_456'' (?bs ! 0)" by code_simp
  have bl: "length ?bs = 2" by code_simp
  have v0: "?bs ! 0 = JObj [(''type'', JStr ''text''), (''text'', JStr ''hi'')]" by code_simp
  have v1: "fieldOf (?bs ! 1) ''is_error'' = JBool False" by code_simp
  have miss: "\<not> snd (anthropicFormat_replaceToolOutput exData ''toolu_999'' ''[PRUNED]'')" by code_simp
  note t = replace_tool_output_frame[of exData "''TOOLU_456''" "''[PRUNED]''"]
  from t len c have blocks: "\<forall>j<length ?bs.
      (isToolResultFor ''TOOLU_456'' (?bs ! j) \<longrightarrow> fieldOf (?bs' ! j) ''content'' = JStr ''[PRUNED]'') \<and>
      (\<not> isToolResultFor ''TOOLU_456'' (?bs ! j) \<longrightarrow> ?bs' ! j = ?bs ! j) \<and>
      (\<forall>k. k \<noteq> ''content'' \<longrightarrow> fieldOf (?bs' ! j) k = fieldOf (?bs ! j) k)"
    by blast
  from blocks bl b1 have r1: "fieldOf (?bs' ! 1) ''content'' = JStr ''[PRUNED]''" by simp
  from blocks bl have "fieldOf (?bs' ! 1) ''is_error'' = fieldOf (?bs ! 1) ''is_error''" by simp
  with v1 have r2: "fieldOf (?bs' ! 1) ''is_error'' = JBool False" by simp
  from blocks bl b0 have "?bs' ! 0 = ?bs ! 0" by simp
  with v0 have r3: "?bs' ! 0 = JObj [(''type'', JStr ''text''), (''text'', JStr ''hi'')]" by simp
  have ex: "\<exists>m\<in>set exData. carriesToolResults m \<and>
           (\<exists>b\<in>set (elems (fieldOf m ''content'')). isToolResultFor ''TOOLU_456'' b)"
    by code_simp
  from t ex have hit: "snd ?R" by blast
  from replace_tool_output_frame[of exData "''toolu_999''" "''[PRUNED]''"] miss
  have same: "fst (anthropicFormat_replaceToolOutput exData ''toolu_999'' ''[PRUNED]'') = exData"
    by blast
  from c b1 b0 hit r1 r2 r3 miss same show ?thesis by (intro conjI)
qed

section \<open>The claim about the distill tool\<close>

lemma dropWhile_all: "(\<forall>c\<in>set (dropWhile P s). P c) \<longleftrightarrow> (\<forall>c\<in>set s. P c)"
  by (induction s) auto

lemma trim_Nil_iff: "trim s = [] \<longleftrightarrow> whitespaceOnly s"
  by (simp add: trim_def whitespaceOnly_def list_all_iff dropWhile_eq_Nil_conv dropWhile_all)

lemma missingArray_iff: "missingArray v \<longleftrightarrow> \<not> truthy v \<or> \<not> isArray v \<or> elems v = []"
  by (simp add: missingArray_def)

lemma not_all_validId:
  "\<not> list_all validId xs \<longleftrightarrow> (\<exists>x\<in>set xs. \<not> isString x \<or> (\<exists>s. x = JStr s \<and> whitespaceOnly s))"
proof -
  have "\<not> validId x \<longleftrightarrow> \<not> isString x \<or> (\<exists>s. x = JStr s \<and> whitespaceOnly s)" for x
    by (cases x) (simp_all add: trim_Nil_iff)
  then show ?thesis by (simp add: list_all_iff)
qed

text \<open>
  Claim C10. \<open>execute\<close> throws, and so does not call the prune operation, exactly when
  the identifiers are missing, are not an array, are an empty array or have an entry that
  is not a string or is a string of white space only, or when the distillation is missing,
  is not an array, is an empty array or has an entry that is not a string. In every other
  case it calls the prune operation on the identifiers and the distillation. The lengths
  of the two arrays are not compared: with two identifiers and one distillation string
  the prune operation is called.
\<close>

theorem execute_validation:
  "((\<exists>e. execute prune ids distillation = Inl e) \<longleftrightarrow>
      (\<not> truthy ids \<or> \<not> isArray ids \<or> elems ids = [] \<or>
       (\<exists>x\<in>set (elems ids). \<not> isString x \<or> (\<exists>s. x = JStr s \<and> whitespaceOnly s)) \<or>
       \<not> truthy distillation \<or> \<not> isArray distillation \<or> elems distillation = [] \<or>
       (\<exists>x\<in>set (elems distillation). \<not> isString x)))
   \<and> ((\<forall>e. execute prune ids distillation \<noteq> Inl e) \<longrightarrow>
        execute prune ids distillation = Inr (prune ids ''extraction'' ''Distill'' distillation))
   \<and> length (elems (JArr [JStr ''1'', JStr ''2''])) \<noteq> length (elems (JArr [JStr ''summary'']))
   \<and> execute PruneCall (JArr [JStr ''1'', JStr ''2'']) (JArr [JStr ''summary'']) =
       Inr (PruneCall (JArr [JStr ''1'', JStr ''2'']) ''extraction'' ''Distill'' (JArr [JStr ''summary'']))"
proof (intro conjI)
  show "(\<exists>e. execute prune ids distillation = Inl e) \<longleftrightarrow>
      (\<not> truthy ids \<or> \<not> isArray ids \<or> elems ids = [] \<or>
       (\<exists>x\<in>set (elems ids). \<not> isString x \<or> (\<exists>s. x = JStr s \<and> whitespaceOnly s)) \<or>
       \<not> truthy distillation \<or> \<not> isArray distillation \<or> elems distillation = [] \<or>
       (\<exists>x\<in>set (elems distillation). \<not> isString x))"
  proof -
    have "(\<exists>e. execute prune ids distillation = Inl e) \<longleftrightarrow>
        missingArray ids \<or> \<not> list_all validId (elems ids) \<or>
        missingArray distillation \<or> \<not> list_all isString (elems distillation)"
      by (simp add: execute_def)
    also have "\<dots> \<longleftrightarrow>
      (\<not> truthy ids \<or> \<not> isArray ids \<or> elems ids = [] \<or>
       (\<exists>x\<in>set (elems ids). \<not> isString x \<or> (\<exists>s. x = JStr s \<and> whitespaceOnly s)) \<or>
       \<not> truthy distillation \<or> \<not> isArray distillation \<or> elems distillation = [] \<or>
       (\<exists>x\<in>set (elems distillation). \<not> isString x))"
      unfolding not_all_validId missingArray_iff by (simp add: list_all_iff)
    finally show ?thesis .
  qed
  show "(\<forall>e. execute prune ids distillation \<noteq> Inl e) \<longrightarrow>
        execute prune ids distillation = Inr (prune ids ''extraction'' ''Distill'' distillation)"
    by (simp add: execute_def)
  show "length (elems (JArr [JStr ''1'', JStr ''2''])) \<noteq> length (elems (JArr [JStr ''summary'']))"
    by simp
  show "execute PruneCall (JArr [JStr ''1'', JStr ''2'']) (JArr [JStr ''summary'']) =
       Inr (PruneCall (JArr [JStr ''1'', JStr ''2'']) ''extraction'' ''Distill'' (JArr [JStr ''summary'']))"
    by code_simp
qed

theorem execute_validation_witness:
  "\<not> truthy JUndefined
   \<and> (\<exists>e. execute PruneCall JUndefined (JArr [JStr ''summary'']) = Inl e)
   \<and> execute PruneCall JUndefined (JArr [JStr ''summary'']) = Inl MissingIds
   \<and> whitespaceOnly ''  ''
   \<and> (\<exists>e. execute PruneCall (JArr [JStr ''1'', JStr ''  '']) (JArr [JStr ''summary'']) = Inl e)
   \<and> execute PruneCall (JArr [JStr ''1'', JStr ''  '']) (JArr [JStr ''summary'']) = Inl InvalidIds
   \<and> execute PruneCall (JArr [JStr ''1'']) JNull = Inl MissingDistillation
   \<and> execute PruneCall (JArr [JStr ''1'']) (JArr [JNum 7]) = Inl InvalidDistillation
   \<and> execute PruneCall (JArr [JStr ''1'']) (JArr [JStr ''summary'']) =
       Inr (PruneCall (JArr [JStr ''1'']) ''extraction'' ''Distill'' (JArr [JStr ''summary'']))"
proof -
  have w: "whitespaceOnly ''  ''" by code_simp
  have u: "\<not> truthy JUndefined" by simp
  from u execute_validation[of PruneCall JUndefined "JArr [JStr ''summary'']"]
  have a: "\<exists>e. execute PruneCall JUndefined (JArr [JStr ''summary'']) = Inl e"
    by blast
  have "\<exists>x\<in>set (elems (JArr [JStr ''1'', JStr ''  ''])).
          \<not> isString x \<or> (\<exists>s. x = JStr s \<and> whitespaceOnly s)"
    using w by simp
  with execute_validation[of PruneCall "JArr [JStr ''1'', JStr ''  '']" "JArr [JStr ''summary'']"]
  have b: "\<exists>e. execute PruneCall (JArr [JStr ''1'', JStr ''  '']) (JArr [JStr ''summary'']) = Inl e"
    by blast
  have c: "execute PruneCall JUndefined (JArr [JStr ''summary'']) = Inl MissingIds" by code_simp
  have d: "execute PruneCall (JArr [JStr ''1'', JStr ''  '']) (JArr [JStr ''summary'']) = Inl InvalidIds"
    by code_simp
  have e: "execute PruneCall (JArr [JStr ''1'']) JNull = Inl MissingDistillation" by code_simp
  have f: "execute PruneCall (JArr [JStr ''1'']) (JArr [JNum 7]) = Inl InvalidDistillation" by code_simp
  have "execute PruneCall (JArr [JStr ''1'']) (JArr [JStr ''summary'']) =
       Inr (PruneCall (JArr [JStr ''1'']) ''extraction'' ''Distill'' (JArr [JStr ''summary'']))"
    by code_simp
  then have "\<forall>e. execute PruneCall (JArr [JStr ''1'']) (JArr [JStr ''summary'']) \<noteq> Inl e"
    by simp
  with execute_validation[of PruneCall "JArr [JStr ''1'']" "JArr [JStr ''summary'']"]
  have g: "execute PruneCall (JArr [JStr ''1'']) (JArr [JStr ''summary'']) =
       Inr (PruneCall (JArr [JStr ''1'']) ''extraction'' ''Distill'' (JArr [JStr ''summary'']))"
    by blast
  from u a c w b d e f g show ?thesis by (intro conjI)
qed

end
